theory Spec2Isabelle
  imports Complex_Main "HOL-Library.Word" "HOL-Library.Log_Nat" "HOL-Library.Char_ord"
    "HOL-Library.List_Lexorder"
begin

section \<open>Data model of \<open>backend/mli_analysis.py\<close>\<close>

text \<open>
  Conventions of the embedding.
  \<^item> A numpy \<open>uint8\<close> array element is an \<open>8 word\<close>; a 2-D array is a list of rows, a
    colour image a list of rows of pixels of three channels.
  \<^item> A Python \<open>int\<close> is an \<open>int\<close>. A Python \<open>float\<close> is a \<open>real\<close>. In grid placement, where
    a float is turned into an integer, every operation rounds its result to the nearest
    double (\<open>round_double\<close>). In the aggregator, whose results stay floats, the arithmetic
    is exact: the rounding error of a sum or a quotient is outside the model.
  \<^item> An exception is a value: every function that can raise returns \<open>error + 'a\<close>.
  \<^item> The routines of OpenCV, scikit-image and base64 whose results the analysis only passes on
    (decoding, grey conversion, blur, Otsu's threshold, drawing, PNG encoding) are the
    fields of the record \<open>library\<close>; the file system is a map from paths to file contents.
\<close>

type_synonym uint8 = "8 word"
type_synonym gray = "uint8 list list"
type_synonym image = "uint8 list list list"
type_synonym point = "int \<times> int"
type_synonym colour = "nat \<times> nat \<times> nat"
type_synonym filesystem = "string \<Rightarrow> uint8 list option"

record AnalysisConfigData =
  scale_um_per_pixel :: real
  line_length_um_horizontal :: real
  line_length_um_vertical :: real
  n_lines_horizontal :: int
  n_lines_vertical :: int
  sigma_denoise :: real
  min_area :: int
  magnification :: string

record LineMetrics =
  line_number :: int
  horizontal_intercepts :: int
  vertical_intercepts :: int
  horizontal_length_um :: real
  vertical_length_um :: real
  total_line_length_um :: real
  mean_linear_intercept_um :: "real option"

record MLIImageMetrics =
  lines :: "LineMetrics list"
  average_mli_um :: "real option"
  processed_image_base64 :: string
  threshold_image_base64 :: string

text \<open>
  \<open>ImageProcessingError\<close> is the module's own exception; \<open>IndexError\<close> is what numpy raises
  when the mask is read at a row or column outside it.
\<close>

datatype error = ImageProcessingError string | IndexError

text \<open>The dictionaries \<open>{'intercepts': ..., 'length_um': ...}\<close> appended per measurement line.\<close>

record line_data =
  intercepts :: int
  length_um :: real

record library =
  imdecode :: "uint8 list \<Rightarrow> image option"
  cvtColor_BGR2GRAY :: "image \<Rightarrow> gray"
  cvtColor_GRAY2BGR :: "gray \<Rightarrow> image"
  GaussianBlur :: "gray \<Rightarrow> real \<Rightarrow> gray"
  threshold_otsu :: "gray \<Rightarrow> real"
  cv_line :: "image \<Rightarrow> point \<Rightarrow> point \<Rightarrow> colour \<Rightarrow> int \<Rightarrow> image"
  cv_circle :: "image \<Rightarrow> point \<Rightarrow> int \<Rightarrow> colour \<Rightarrow> int \<Rightarrow> image"
  cv_drawMarker :: "image \<Rightarrow> point \<Rightarrow> colour \<Rightarrow> int \<Rightarrow> int \<Rightarrow> image"
  imencode_png :: "image \<Rightarrow> uint8 list option"
  b64encode :: "uint8 list \<Rightarrow> string"

section \<open>Segmentation\<close>

text \<open>
  \<open>cv2.imread\<close> returns \<open>None\<close> when the file is missing or cannot be decoded.
\<close>

definition cv_imread :: "library \<Rightarrow> filesystem \<Rightarrow> string \<Rightarrow> image option" where
  "cv_imread lib fs path = (case fs path of None \<Rightarrow> None | Some bytes \<Rightarrow> imdecode lib bytes)"

text \<open>
  \<open>skimage.morphology.remove_small_objects\<close> on a boolean array, as its documentation has it:
  the array is labelled into connected components with connectivity 1 (a pixel touches the
  four pixels that share an edge with it) and every component with fewer than \<open>min_size\<close>
  pixels is cleared; \<open>min_size = 0\<close> returns the array as it is. The component of a pixel is
  computed by growing the one-pixel set through set pixels, as many times as the array has
  pixels (no component needs more steps).
\<close>

definition pixels_of :: "bool list list \<Rightarrow> (nat \<times> nat) list" where
  "pixels_of m = concat (map (\<lambda>r. map (\<lambda>c. (r, c)) [0..<length (m ! r)]) [0..<length m])"

definition adjacent :: "nat \<times> nat \<Rightarrow> nat \<times> nat \<Rightarrow> bool" where
  "adjacent p q =
     ((fst p = fst q \<and> (snd p = snd q + 1 \<or> snd q = snd p + 1)) \<or>
      (snd p = snd q \<and> (fst p = fst q + 1 \<or> fst q = fst p + 1)))"

definition grow :: "bool list list \<Rightarrow> (nat \<times> nat) list \<Rightarrow> (nat \<times> nat) list" where
  "grow m reached =
     filter (\<lambda>q. m ! fst q ! snd q \<and> (List.member reached q \<or> list_ex (adjacent q) reached))
       (pixels_of m)"

fun grow_times :: "nat \<Rightarrow> bool list list \<Rightarrow> (nat \<times> nat) list \<Rightarrow> (nat \<times> nat) list" where
  "grow_times 0 m reached = reached"
| "grow_times (Suc n) m reached = grow_times n m (grow m reached)"

definition component :: "bool list list \<Rightarrow> nat \<times> nat \<Rightarrow> (nat \<times> nat) list" where
  "component m p = grow_times (length (pixels_of m)) m [p]"

definition remove_small_objects :: "bool list list \<Rightarrow> int \<Rightarrow> bool list list" where
  "remove_small_objects ar min_size =
     (if min_size = 0 then ar
      else map (\<lambda>r. map (\<lambda>c. ar ! r ! c \<and> \<not> int (length (component ar (r, c))) < min_size)
                  [0..<length (ar ! r)])
             [0..<length ar])"

definition load_image_and_mask ::
  "library \<Rightarrow> filesystem \<Rightarrow> string \<Rightarrow> AnalysisConfigData \<Rightarrow> error + (image \<times> gray)" where
  "load_image_and_mask lib fs path config =
     (case cv_imread lib fs path of
        None \<Rightarrow> Inl (ImageProcessingError (''Unable to read image at '' @ path))
      | Some image' \<Rightarrow>
          let gray0 = cvtColor_BGR2GRAY lib image';
              gray1 = (if sigma_denoise config > 0
                       then GaussianBlur lib gray0 (sigma_denoise config) else gray0);
              threshold = threshold_otsu lib gray1;
              tissue_mask0 = map (map (\<lambda>v. real_of_int (uint v) < threshold)) gray1;
              tissue_mask = (if min_area config > 0
                             then remove_small_objects tissue_mask0 (min_area config)
                             else tissue_mask0)
          in Inr (image', map (map (\<lambda>b. if b then 1 else 0)) tissue_mask))"

section \<open>Grid placement\<close>

text \<open>Python's \<open>round\<close> on a float: to the nearest integer, a tie to the even one.\<close>

definition py_round :: "real \<Rightarrow> int" where
  "py_round x =
     (let f = \<lfloor>x\<rfloor>; d = x - of_int f
      in if d < 1 / 2 then f
         else if 1 / 2 < d then f + 1
         else if even f then f else f + 1)"

text \<open>
  The binary exponent of a positive real: the \<open>e\<close> with \<open>2 ^ e \<le> x < 2 ^ (e + 1)\<close>, found from
  the number of bits of the integer part of \<open>x\<close>, or of \<open>1 / x\<close> when \<open>x < 1\<close>.
\<close>

definition binary_exponent :: "real \<Rightarrow> int" where
  "binary_exponent x =
     (if 1 \<le> x then int (floorlog 2 (nat \<lfloor>x\<rfloor>)) - 1
      else - int (floorlog 2 (nat (\<lceil>1 / x\<rceil> - 1))))"

text \<open>
  Rounding to the nearest IEEE double, a tie to the even significand: the value is scaled
  so that its significand has 53 bits (fewer below \<open>2 ^ - 1022\<close>, where doubles are
  subnormal), rounded to an integer and scaled back. Values of \<open>2 ^ 1024\<close> and more, where
  Python raises \<open>OverflowError\<close> or gives \<open>inf\<close>, are not modelled: the axis lengths and
  counts are sizes of arrays and lists held in memory.
\<close>

definition round_double :: "real \<Rightarrow> real" where
  "round_double x =
     (if x = 0 then 0
      else
        let e = max (binary_exponent \<bar>x\<bar>) (- 1022);
            ulp = 2 powi (e - 52)
        in sgn x * (real_of_int (py_round (\<bar>x\<bar> / ulp)) * ulp))"

text \<open>
  One element of the list comprehension of \<open>_auto_positions\<close>:
  \<open>int(round(step * (index + 1)))\<close>. The integer \<open>index + 1\<close> is converted to a double, the
  product is rounded to a double, and \<open>round\<close> gives an \<open>int\<close>.
\<close>

definition grid_position :: "real \<Rightarrow> int \<Rightarrow> int" where
  "grid_position step index =
     py_round (round_double (step * round_double (real_of_int (index + 1))))"

text \<open>
  \<open>length / (count + 1)\<close> divides two integers: Python returns the double nearest to the
  exact quotient.
\<close>

definition auto_positions :: "int \<Rightarrow> int \<Rightarrow> int list" where
  "auto_positions length' count =
     (if count \<le> 0 then []
      else
        let step = round_double (real_of_int length' / real_of_int (count + 1))
        in map (grid_position step) [0..count - 1])"

section \<open>Intercept counter\<close>

fun np_diff :: "int list \<Rightarrow> int list" where
  "np_diff (x # y # xs) = (y - x) # np_diff (y # xs)"
| "np_diff _ = []"

definition np_nonzero :: "int list \<Rightarrow> nat list" where
  "np_nonzero ts = filter (\<lambda>i. ts ! i \<noteq> 0) [0..<length ts]"

definition astype_int8 :: "bool list \<Rightarrow> int list" where
  "astype_int8 bs = map (\<lambda>b. if b then 1 else 0) bs"

definition count_intercepts :: "uint8 list \<Rightarrow> int \<times> nat list" where
  "count_intercepts samples =
     (if length samples = 0 then (0, [])
      else
        let active = map (\<lambda>s. s > 0) samples;
            transitions = np_diff (astype_int8 active);
            indices = map (\<lambda>i. i + 1) (np_nonzero transitions)
        in (int (length indices), indices))"

section \<open>Rendering\<close>

definition encode_image_to_base64 :: "library \<Rightarrow> image \<Rightarrow> error + string" where
  "encode_image_to_base64 lib image' =
     (case imencode_png lib image' of
        None \<Rightarrow> Inl (ImageProcessingError ''Unable to encode processed image to PNG'')
      | Some buffer \<Rightarrow> Inr (b64encode lib buffer))"

definition draw_intercept_marker :: "library \<Rightarrow> image \<Rightarrow> point \<Rightarrow> image" where
  "draw_intercept_marker lib canvas point =
     (let canvas1 = cv_circle lib canvas point 8 (40, 40, 40) 3;
          canvas2 = cv_drawMarker lib canvas1 point (0, 255, 255) 30 3
      in cv_circle lib canvas2 point 4 (255, 0, 255) (- 1))"

text \<open>The inner loop \<open>for point in points\<close>: both overlays receive every marker.\<close>

fun draw_markers :: "library \<Rightarrow> image \<times> image \<Rightarrow> point list \<Rightarrow> image \<times> image" where
  "draw_markers lib (original_overlay, threshold_overlay) [] =
     (original_overlay, threshold_overlay)"
| "draw_markers lib (original_overlay, threshold_overlay) (point # points) =
     draw_markers lib
       (draw_intercept_marker lib original_overlay point,
        draw_intercept_marker lib threshold_overlay point) points"

section \<open>Sampling the mask along a line\<close>

text \<open>
  \<open>skimage.draw.line\<close> for the two shapes of call the pipeline makes: a segment within one
  row (\<open>r0 = r1\<close>) or within one column (\<open>c0 = c1\<close>). Both end points belong to the segment.
\<close>

definition line_span :: "int \<Rightarrow> int \<Rightarrow> int list" where
  "line_span a b = (if a \<le> b then [a..b] else rev [b..a])"

definition draw_line :: "int \<Rightarrow> int \<Rightarrow> int \<Rightarrow> int \<Rightarrow> int list \<times> int list" where
  "draw_line r0 c0 r1 c1 =
     (if r0 = r1 then (replicate (length (line_span c0 c1)) r0, line_span c0 c1)
      else (line_span r0 r1, replicate (length (line_span r0 r1)) c0))"

text \<open>
  numpy's index check on one axis of extent \<open>n\<close>: an index in \<open>[-n, n)\<close> is accepted, a
  negative one counts from the end, anything else raises \<open>IndexError\<close>.
\<close>

definition np_index :: "int \<Rightarrow> int \<Rightarrow> error + nat" where
  "np_index n i =
     (if - n \<le> i \<and> i < n then Inr (nat (if i < 0 then i + n else i)) else Inl IndexError)"

definition shape :: "gray \<Rightarrow> int \<times> int" where
  "shape mask' = (int (length mask'), (case mask' of [] \<Rightarrow> 0 | row # _ \<Rightarrow> int (length row)))"

text \<open>\<open>mask[rr, cc]\<close>: the elements at the paired row and column indices.\<close>

fun getitem :: "gray \<Rightarrow> int list \<Rightarrow> int list \<Rightarrow> error + uint8 list" where
  "getitem mask' [] [] = Inr []"
| "getitem mask' (r # rr) (c # cc) =
     (case np_index (fst (shape mask')) r of
        Inl e \<Rightarrow> Inl e
      | Inr i \<Rightarrow>
          (case np_index (snd (shape mask')) c of
             Inl e \<Rightarrow> Inl e
           | Inr j \<Rightarrow>
               (case getitem mask' rr cc of
                  Inl e \<Rightarrow> Inl e
                | Inr samples \<Rightarrow> Inr (mask' ! i ! j # samples))))"
| "getitem mask' _ _ = Inl IndexError"

section \<open>The pipeline\<close>

text \<open>
  The loop \<open>for y in horizontal_positions\<close>. Its state is the two overlays, drawn on in
  place, and the list \<open>horizontal_data\<close>.
\<close>

fun horizontal_lines ::
  "library \<Rightarrow> AnalysisConfigData \<Rightarrow> gray \<Rightarrow> int \<Rightarrow> int list \<Rightarrow>
   image \<times> image \<times> line_data list \<Rightarrow> error + (image \<times> image \<times> line_data list)" where
  "horizontal_lines lib config mask' width [] state = Inr state"
| "horizontal_lines lib config mask' width (y # ys)
     (original_overlay, threshold_overlay, horizontal_data) =
     (let start_x = 0;
          end_x = width - 1;
          (rr, cc) = draw_line y start_x y end_x
      in case getitem mask' rr cc of
           Inl e \<Rightarrow> Inl e
         | Inr samples \<Rightarrow>
             let (intercepts', intercept_indices) = count_intercepts samples;
                 length_um' = line_length_um_horizontal config;
                 points = map (\<lambda>i. (cc ! i, rr ! i)) intercept_indices;
                 original1 = cv_line lib original_overlay (start_x, y) (end_x, y) (0, 176, 255) 3;
                 threshold1 = cv_line lib threshold_overlay (start_x, y) (end_x, y) (0, 176, 255) 3;
                 (original2, threshold2) = draw_markers lib (original1, threshold1) points
             in horizontal_lines lib config mask' width ys
                  (original2, threshold2,
                   horizontal_data @ [\<lparr>intercepts = intercepts', length_um = length_um'\<rparr>]))"

text \<open>The loop \<open>for x in vertical_positions\<close>.\<close>

fun vertical_lines ::
  "library \<Rightarrow> AnalysisConfigData \<Rightarrow> gray \<Rightarrow> int \<Rightarrow> int list \<Rightarrow>
   image \<times> image \<times> line_data list \<Rightarrow> error + (image \<times> image \<times> line_data list)" where
  "vertical_lines lib config mask' height [] state = Inr state"
| "vertical_lines lib config mask' height (x # xs)
     (original_overlay, threshold_overlay, vertical_data) =
     (let start_y = 0;
          end_y = height - 1;
          (rr, cc) = draw_line start_y x end_y x
      in case getitem mask' rr cc of
           Inl e \<Rightarrow> Inl e
         | Inr samples \<Rightarrow>
             let (intercepts', intercept_indices) = count_intercepts samples;
                 length_um' = line_length_um_vertical config;
                 points = map (\<lambda>i. (cc ! i, rr ! i)) intercept_indices;
                 original1 = cv_line lib original_overlay (x, start_y) (x, end_y) (76, 255, 0) 3;
                 threshold1 = cv_line lib threshold_overlay (x, start_y) (x, end_y) (76, 255, 0) 3;
                 (original2, threshold2) = draw_markers lib (original1, threshold1) points
             in vertical_lines lib config mask' height xs
                  (original2, threshold2,
                   vertical_data @ [\<lparr>intercepts = intercepts', length_um = length_um'\<rparr>]))"

text \<open>
  One pass of the loop \<open>for idx in range(line_count)\<close> (lines 149 to 171): the row of index
  \<open>idx\<close>. A dictionary of \<open>horizontal_data\<close> has two keys, so it is true as a condition;
  only \<open>None\<close> takes the other branch.
\<close>

definition line_row :: "line_data list \<Rightarrow> line_data list \<Rightarrow> nat \<Rightarrow> LineMetrics" where
  "line_row horizontal_data vertical_data idx =
     (let horizontal = (if idx < length horizontal_data then Some (horizontal_data ! idx) else None);
          vertical = (if idx < length vertical_data then Some (vertical_data ! idx) else None);
          horizontal_intercepts' = (case horizontal of Some h \<Rightarrow> intercepts h | None \<Rightarrow> 0);
          vertical_intercepts' = (case vertical of Some v \<Rightarrow> intercepts v | None \<Rightarrow> 0);
          horizontal_length_um' = (case horizontal of Some h \<Rightarrow> length_um h | None \<Rightarrow> 0);
          vertical_length_um' = (case vertical of Some v \<Rightarrow> length_um v | None \<Rightarrow> 0);
          total_line_length_um' = horizontal_length_um' + vertical_length_um';
          total_intercepts = horizontal_intercepts' + vertical_intercepts';
          line_mli = (if total_intercepts \<noteq> 0
                      then Some (total_line_length_um' / real_of_int total_intercepts) else None)
      in \<lparr>line_number = int idx + 1,
          horizontal_intercepts = horizontal_intercepts',
          vertical_intercepts = vertical_intercepts',
          horizontal_length_um = horizontal_length_um',
          vertical_length_um = vertical_length_um',
          total_line_length_um = total_line_length_um',
          mean_linear_intercept_um = line_mli\<rparr>)"

text \<open>The aggregator's rows (lines 146 to 171).\<close>

definition line_rows :: "line_data list \<Rightarrow> line_data list \<Rightarrow> LineMetrics list" where
  "line_rows horizontal_data vertical_data =
     (let line_count = max (length horizontal_data) (length vertical_data)
      in map (line_row horizontal_data vertical_data) [0..<line_count])"

text \<open>The image-level average (lines 173 and 174); \<open>np.mean\<close> is the sum over the count.\<close>

definition valid_mli :: "LineMetrics list \<Rightarrow> real list" where
  "valid_mli rows =
     concat (map (\<lambda>line. case mean_linear_intercept_um line of None \<Rightarrow> [] | Some m \<Rightarrow> [m]) rows)"

definition average_mli :: "LineMetrics list \<Rightarrow> real option" where
  "average_mli rows =
     (if valid_mli rows \<noteq> []
      then Some (sum_list (valid_mli rows) / real (length (valid_mli rows))) else None)"

text \<open>
  Lines 106 to 174 of \<open>run_mli_analysis\<close>: everything before the overlays are encoded. The
  result is the rows, the average and the two finished overlays.
\<close>

definition measure_image ::
  "library \<Rightarrow> filesystem \<Rightarrow> string \<Rightarrow> AnalysisConfigData \<Rightarrow>
   error + (LineMetrics list \<times> real option \<times> image \<times> image)" where
  "measure_image lib fs path config =
     (case load_image_and_mask lib fs path config of
        Inl e \<Rightarrow> Inl e
      | Inr (image', mask') \<Rightarrow>
          let (height, width) = shape mask';
              horizontal_positions = auto_positions height (n_lines_horizontal config);
              vertical_positions = auto_positions width (n_lines_vertical config);
              original_overlay = image';
              mask_visual = map (map (\<lambda>v. v * 255)) mask';
              threshold_overlay = cvtColor_GRAY2BGR lib mask_visual
          in case horizontal_lines lib config mask' width horizontal_positions
                    (original_overlay, threshold_overlay, []) of
               Inl e \<Rightarrow> Inl e
             | Inr (original1, threshold1, horizontal_data) \<Rightarrow>
                 (case vertical_lines lib config mask' height vertical_positions
                         (original1, threshold1, []) of
                    Inl e \<Rightarrow> Inl e
                  | Inr (original2, threshold2, vertical_data) \<Rightarrow>
                      let rows = line_rows horizontal_data vertical_data
                      in Inr (rows, average_mli rows, original2, threshold2)))"

definition run_mli_analysis ::
  "library \<Rightarrow> filesystem \<Rightarrow> string \<Rightarrow> AnalysisConfigData \<Rightarrow> error + MLIImageMetrics" where
  "run_mli_analysis lib fs path config =
     (case measure_image lib fs path config of
        Inl e \<Rightarrow> Inl e
      | Inr (rows, average, original_overlay, threshold_overlay) \<Rightarrow>
          (case encode_image_to_base64 lib original_overlay of
             Inl e \<Rightarrow> Inl e
           | Inr processed \<Rightarrow>
               (case encode_image_to_base64 lib threshold_overlay of
                  Inl e \<Rightarrow> Inl e
                | Inr thresholded \<Rightarrow>
                    Inr \<lparr>lines = rows,
                         average_mli_um = average,
                         processed_image_base64 = processed,
                         threshold_image_base64 = thresholded\<rparr>)))"

section \<open>The batch loop of \<open>backend/main.py\<close>\<close>

text \<open>
  The records of \<open>backend/storage.py\<close>. \<open>LineResult\<close> has the fields of \<open>LineMetrics\<close>, and
  \<open>analyze\<close> copies a row field by field, so one record type serves for both. The fields of
  \<open>AnalysisImageResult\<close> and \<open>AnalysisResult\<close> that share a name with a field above carry the
  prefix \<open>result\<close>.
\<close>

record ImageRecord =
  image_id :: string
  animal_id :: string
  original_filename :: string
  stored_path :: string
  size :: int
  uploaded_at :: string

record AnalysisImageResult =
  result_image_id :: string
  image_number :: int
  name :: string
  result_average_mli_um :: "real option"
  result_processed_image_base64 :: string
  result_threshold_image_base64 :: string
  result_lines :: "LineMetrics list"

record AnalysisResult =
  result_animal_id :: string
  generated_at :: string
  images :: "AnalysisImageResult list"

text \<open>
  The state of the \<open>StateManager\<close>: the image records in the order of the dictionary (the
  order of insertion) and the stored result of each animal.
\<close>

record StateManager =
  state_images :: "ImageRecord list"
  state_results :: "string \<Rightarrow> AnalysisResult option"

definition get_images_for_animal :: "StateManager \<Rightarrow> string \<Rightarrow> ImageRecord list" where
  "get_images_for_animal st animal =
     sort_key uploaded_at (filter (\<lambda>record. animal_id record = animal) (state_images st))"

definition record_analysis :: "StateManager \<Rightarrow> AnalysisResult \<Rightarrow> StateManager" where
  "record_analysis st result =
     st\<lparr>state_results := (state_results st)(result_animal_id result \<mapsto> result)\<rparr>"

text \<open>
  What a request ends with when it does not return: the \<open>HTTPException\<close> the handler raises
  (status code and detail), or an exception the handler does not catch.
\<close>

datatype failure = HTTPException int string | Unhandled error

definition resolve_path :: "string \<Rightarrow> string \<Rightarrow> string" where
  "resolve_path base_dir stored =
     (if stored \<noteq> [] \<and> hd stored = CHR ''/'' then stored else base_dir @ ''/'' @ stored)"

text \<open>
  The loop \<open>for index, image in enumerate(images)\<close> of \<open>analyze\<close>. Beside \<open>image_results\<close> the
  model keeps the list \<open>attempted\<close> of the images \<open>run_mli_analysis\<close> was called on, in the
  order of the calls. A \<open>raise\<close> leaves the loop at once.
\<close>

fun analyze_images ::
  "library \<Rightarrow> filesystem \<Rightarrow> string \<Rightarrow> AnalysisConfigData \<Rightarrow> (nat \<times> ImageRecord) list \<Rightarrow>
   AnalysisImageResult list \<Rightarrow> string list \<Rightarrow> string list \<times> (failure + AnalysisImageResult list)" where
  "analyze_images lib fs base_dir config_data [] image_results attempted =
     (attempted, Inr image_results)"
| "analyze_images lib fs base_dir config_data ((index, image') # rest) image_results attempted =
     (let image_path = resolve_path base_dir (stored_path image')
      in if fs image_path = None
         then (attempted,
               Inl (HTTPException 404 (''Image not found on disk: '' @ image_path)))
         else
           (case run_mli_analysis lib fs image_path config_data of
              Inl (ImageProcessingError message) \<Rightarrow>
                (attempted @ [image_id image'], Inl (HTTPException 500 message))
            | Inl IndexError \<Rightarrow>
                (attempted @ [image_id image'], Inl (Unhandled IndexError))
            | Inr metrics \<Rightarrow>
                analyze_images lib fs base_dir config_data rest
                  (image_results @
                   [\<lparr>result_image_id = image_id image',
                     image_number = int index + 1,
                     name = original_filename image',
                     result_average_mli_um = average_mli_um metrics,
                     result_processed_image_base64 = processed_image_base64 metrics,
                     result_threshold_image_base64 = threshold_image_base64 metrics,
                     result_lines = lines metrics\<rparr>])
                  (attempted @ [image_id image'])))"

text \<open>
  The handler \<open>analyze\<close>: the new state, the images attempted and the response. \<open>now\<close> is the
  reading of the clock.
\<close>

definition analyze ::
  "library \<Rightarrow> filesystem \<Rightarrow> string \<Rightarrow> string \<Rightarrow> StateManager \<Rightarrow> string \<Rightarrow> AnalysisConfigData \<Rightarrow>
   StateManager \<times> string list \<times> (failure + AnalysisResult)" where
  "analyze lib fs base_dir now st animal config_data =
     (let records = get_images_for_animal st animal
      in if records = []
         then (st, [], Inl (HTTPException 404 ''No images found for this animal''))
         else
           (case analyze_images lib fs base_dir config_data
                   (zip [0..<length records] records) [] [] of
              (attempted, Inl f) \<Rightarrow> (st, attempted, Inl f)
            | (attempted, Inr image_results) \<Rightarrow>
                let analysis_result =
                      \<lparr>result_animal_id = animal,
                       generated_at = now @ ''Z'',
                       images = image_results\<rparr>
                in (record_analysis st analysis_result, attempted, Inr analysis_result)))"

text \<open>The number of tissue pixels of a mask: its non-zero entries (\<open>np.count_nonzero\<close>).\<close>

definition count_nonzero :: "gray \<Rightarrow> nat" where
  "count_nonzero mask' = sum_list (map (\<lambda>row. length (filter (\<lambda>v. v \<noteq> 0) row)) mask')"

section \<open>A small library and file system for concrete runs\<close>

text \<open>
  A stand-in for the external routines, used where a statement is evaluated on a concrete
  input: a file of \<open>n > 0\<close> bytes decodes to the \<open>n \<times> n\<close> image whose every row shows the
  bytes as grey values, an empty file does not decode; the threshold is 128; drawing leaves
  the canvas as it is; an image encodes to its bytes in order, unless it has none or the
  first is 254, when encoding fails.
\<close>

definition toy_library :: library where
  "toy_library =
     \<lparr>imdecode = (\<lambda>bytes. if bytes = [] then None
                          else Some (map (\<lambda>_. map (\<lambda>b. [b, b, b]) bytes) bytes)),
      cvtColor_BGR2GRAY = map (map hd),
      cvtColor_GRAY2BGR = map (map (\<lambda>v. [v, v, v])),
      GaussianBlur = (\<lambda>g sigma. g),
      threshold_otsu = (\<lambda>g. 128),
      cv_line = (\<lambda>canvas p q c t. canvas),
      cv_circle = (\<lambda>canvas p r c t. canvas),
      cv_drawMarker = (\<lambda>canvas p c s t. canvas),
      imencode_png = (\<lambda>canvas. let bytes = concat (concat canvas)
                               in if bytes = [] \<or> hd bytes = 254 then None else Some bytes),
      b64encode = map (\<lambda>b. if b = 0 then CHR ''A'' else CHR ''/'')\<rparr>"

definition toy_files :: filesystem where
  "toy_files path =
     (if path = ''/data/a.png'' then Some [0, 0, 200, 200, 0]
      else if path = ''/data/b.png'' then Some [200, 0, 200]
      else if path = ''/data/c.png'' then Some [254, 0]
      else if path = ''/data/broken.png'' then Some []
      else None)"

definition toy_config :: AnalysisConfigData where
  "toy_config =
     \<lparr>scale_um_per_pixel = 1 / 2,
      line_length_um_horizontal = 100,
      line_length_um_vertical = 50,
      n_lines_horizontal = 2,
      n_lines_vertical = 1,
      sigma_denoise = 0,
      min_area = 0,
      magnification = ''20x''\<rparr>"

text \<open>
  A state with three animals: \<open>m1\<close> has an undecodable image followed by a good one, \<open>m2\<close>
  a good image, one whose file is not on disk, and another good one, \<open>m3\<close> one good image.
\<close>

definition toy_state :: StateManager where
  "toy_state =
     \<lparr>state_images =
        [\<lparr>image_id = ''i1'', animal_id = ''m1'', original_filename = ''broken.png'',
          stored_path = ''/data/broken.png'', size = 0, uploaded_at = ''2024-01-01T10:00:00''\<rparr>,
         \<lparr>image_id = ''i2'', animal_id = ''m1'', original_filename = ''a.png'',
          stored_path = ''/data/a.png'', size = 5, uploaded_at = ''2024-01-01T10:00:01''\<rparr>,
         \<lparr>image_id = ''i3'', animal_id = ''m2'', original_filename = ''b.png'',
          stored_path = ''/data/b.png'', size = 3, uploaded_at = ''2024-01-02T09:00:00''\<rparr>,
         \<lparr>image_id = ''i4'', animal_id = ''m2'', original_filename = ''gone.png'',
          stored_path = ''uploads/m2/gone.png'', size = 7, uploaded_at = ''2024-01-02T09:00:01''\<rparr>,
         \<lparr>image_id = ''i5'', animal_id = ''m2'', original_filename = ''a.png'',
          stored_path = ''/data/a.png'', size = 5, uploaded_at = ''2024-01-02T09:00:02''\<rparr>,
         \<lparr>image_id = ''i6'', animal_id = ''m3'', original_filename = ''b.png'',
          stored_path = ''/data/b.png'', size = 3, uploaded_at = ''2024-01-03T08:00:00''\<rparr>],
      state_results = Map.empty\<rparr>"

section \<open>The intercept counter\<close>

lemma length_np_diff: "length (np_diff xs) = length xs - 1"
  by (induction xs rule: np_diff.induct) auto

lemma nth_np_diff: "Suc i < length xs \<Longrightarrow> np_diff xs ! i = xs ! Suc i - xs ! i"
proof (induction xs arbitrary: i rule: np_diff.induct)
  case (1 x y xs)
  then show ?case by (cases i) auto
qed auto

lemma np_nonzero_diff:
  "map (\<lambda>i. i + 1) (np_nonzero (np_diff xs)) =
   filter (\<lambda>i. xs ! i \<noteq> xs ! (i - 1)) [1..<length xs]"
proof -
  have "filter (\<lambda>i. xs ! i \<noteq> xs ! (i - 1)) [1..<length xs]
      = filter (\<lambda>i. xs ! i \<noteq> xs ! (i - 1)) (map Suc [0..<length xs - 1])"
    by (cases "length xs") (simp_all add: map_Suc_upt)
  also have "\<dots> = map Suc (filter (\<lambda>i. xs ! Suc i \<noteq> xs ! i) [0..<length xs - 1])"
    by (simp add: filter_map comp_def)
  also have "filter (\<lambda>i. xs ! Suc i \<noteq> xs ! i) [0..<length xs - 1]
      = filter (\<lambda>i. np_diff xs ! i \<noteq> 0) [0..<length xs - 1]"
    by (rule filter_cong) (auto simp: nth_np_diff)
  finally show ?thesis
    by (simp add: np_nonzero_def length_np_diff)
qed

text \<open>
  C3. The intercept counter returns exactly the indices \<open>i > 0\<close> at which the tissue
  membership of sample \<open>i\<close> differs from that of sample \<open>i - 1\<close>, and their number; the empty
  sequence gives count 0 and no index; tissue, tissue, background, background, tissue gives
  count 2 at the indices 2 and 4.
\<close>

theorem count_intercepts_transitions:
  "count_intercepts samples =
     (int (length (filter (\<lambda>i. (0 < samples ! i) \<noteq> (0 < samples ! (i - 1))) [1..<length samples])),
      filter (\<lambda>i. (0 < samples ! i) \<noteq> (0 < samples ! (i - 1))) [1..<length samples])
   \<and> count_intercepts [] = (0, [])
   \<and> count_intercepts [1, 1, 0, 0, 1] = (2, [2, 4])"
proof -
  let ?act = "map (\<lambda>s. 0 < s) samples"
  have eq: "filter (\<lambda>i. astype_int8 ?act ! i \<noteq> astype_int8 ?act ! (i - 1)) [1..<length samples]
      = filter (\<lambda>i. (0 < samples ! i) \<noteq> (0 < samples ! (i - 1))) [1..<length samples]"
    by (rule filter_cong) (auto simp: astype_int8_def split: if_splits)
  have idx: "map (\<lambda>i. i + 1) (np_nonzero (np_diff (astype_int8 ?act)))
      = filter (\<lambda>i. (0 < samples ! i) \<noteq> (0 < samples ! (i - 1))) [1..<length samples]"
    using np_nonzero_diff [of "astype_int8 ?act"] eq by (simp add: astype_int8_def)
  have gen: "count_intercepts samples =
     (int (length (filter (\<lambda>i. (0 < samples ! i) \<noteq> (0 < samples ! (i - 1))) [1..<length samples])),
      filter (\<lambda>i. (0 < samples ! i) \<noteq> (0 < samples ! (i - 1))) [1..<length samples])"
  proof (cases "samples = []")
    case True
    then show ?thesis by (simp add: count_intercepts_def)
  next
    case False
    then show ?thesis
      unfolding count_intercepts_def Let_def using idx by simp
  qed
  have emp: "count_intercepts [] = (0, [])"
    by (simp add: count_intercepts_def)
  have ex: "count_intercepts [1, 1, 0, 0, 1] = (2, [2, 4])"
    by code_simp
  from gen emp ex show ?thesis by blast
qed

theorem count_intercepts_transitions_witness:
  "count_intercepts [0, 3, 3, 0] = (2, [1, 3])"
proof -
  have "filter (\<lambda>i. (0 < [0, 3, 3, 0::uint8] ! i) \<noteq> (0 < [0, 3, 3, 0::uint8] ! (i - 1)))
          [1..<length [0, 3, 3, 0::uint8]] = [1, 3]"
    by code_simp
  with count_intercepts_transitions [of "[0, 3, 3, 0]"] show ?thesis by simp
qed

section \<open>The line metrics aggregator\<close>

lemma length_line_rows: "length (line_rows hs vs) = max (length hs) (length vs)"
  by (simp add: line_rows_def)

lemma nth_line_rows:
  "i < max (length hs) (length vs) \<Longrightarrow> line_rows hs vs ! i = line_row hs vs i"
  by (simp add: line_rows_def)

lemma valid_mli_filter:
  "valid_mli rows = map the (filter (\<lambda>m. m \<noteq> None) (map mean_linear_intercept_um rows))"
  by (induction rows) (auto simp: valid_mli_def split: option.splits)

lemma valid_mli_empty_iff:
  "valid_mli rows = [] \<longleftrightarrow> (\<forall>row \<in> set rows. mean_linear_intercept_um row = None)"
  by (induction rows) (auto simp: valid_mli_def split: option.splits)

lemma line_row_mli_None_iff:
  "mean_linear_intercept_um (line_row hs vs i) = None \<longleftrightarrow>
   horizontal_intercepts (line_row hs vs i) + vertical_intercepts (line_row hs vs i) = 0"
  by (simp add: line_row_def Let_def)

lemma line_row_mli_value:
  "horizontal_intercepts (line_row hs vs i) + vertical_intercepts (line_row hs vs i) \<noteq> 0 \<Longrightarrow>
   mean_linear_intercept_um (line_row hs vs i) =
     Some (total_line_length_um (line_row hs vs i) /
           real_of_int (horizontal_intercepts (line_row hs vs i) + vertical_intercepts (line_row hs vs i)))"
  by (simp add: line_row_def Let_def)

lemma valid_mli_line_rows:
  "valid_mli (line_rows hs vs) =
     map (\<lambda>row. total_line_length_um row /
                 real_of_int (horizontal_intercepts row + vertical_intercepts row))
       (filter (\<lambda>row. horizontal_intercepts row + vertical_intercepts row \<noteq> 0) (line_rows hs vs))"
proof -
  have "valid_mli (map (line_row hs vs) ixs) =
     map (\<lambda>row. total_line_length_um row /
                 real_of_int (horizontal_intercepts row + vertical_intercepts row))
       (filter (\<lambda>row. horizontal_intercepts row + vertical_intercepts row \<noteq> 0)
          (map (line_row hs vs) ixs))" for ixs
  proof (induction ixs)
    case Nil
    show ?case by (simp add: valid_mli_def)
  next
    case (Cons i ixs)
    have split: "valid_mli (map (line_row hs vs) (i # ixs)) =
        (case mean_linear_intercept_um (line_row hs vs i) of None \<Rightarrow> [] | Some m \<Rightarrow> [m])
        @ valid_mli (map (line_row hs vs) ixs)"
      by (simp add: valid_mli_def)
    show ?case
    proof (cases "horizontal_intercepts (line_row hs vs i) + vertical_intercepts (line_row hs vs i) = 0")
      case True
      then have "mean_linear_intercept_um (line_row hs vs i) = None"
        by (simp add: line_row_mli_None_iff)
      with True split Cons.IH show ?thesis by simp
    next
      case False
      from line_row_mli_value [OF False] False split Cons.IH show ?thesis by simp
    qed
  qed
  then show ?thesis by (simp add: line_rows_def)
qed

text \<open>
  C1. In every row of the aggregator the total length is the horizontal length plus the
  vertical length, an absent side counting 0; the total of intercepts is the horizontal
  count plus the vertical count; and when that total is positive the row's MLI is the total
  length divided by it. Lengths 100 and 50 with 2 and 3 intercepts give total length 150,
  5 intercepts and the MLI 30.
\<close>

theorem line_rows_totals:
  assumes "i < max (length hs) (length vs)"
  defines "row \<equiv> line_rows hs vs ! i"
  defines "hl \<equiv> (if i < length hs then length_um (hs ! i) else 0)"
  defines "vl \<equiv> (if i < length vs then length_um (vs ! i) else 0)"
  defines "hc \<equiv> (if i < length hs then intercepts (hs ! i) else 0)"
  defines "vc \<equiv> (if i < length vs then intercepts (vs ! i) else 0)"
  shows "horizontal_length_um row = hl \<and> vertical_length_um row = vl
       \<and> total_line_length_um row = hl + vl
       \<and> horizontal_intercepts row = hc \<and> vertical_intercepts row = vc
       \<and> (0 < hc + vc \<longrightarrow> mean_linear_intercept_um row = Some ((hl + vl) / real_of_int (hc + vc)))
       \<and> line_rows [\<lparr>intercepts = 2, length_um = 100\<rparr>] [\<lparr>intercepts = 3, length_um = 50\<rparr>] =
           [\<lparr>line_number = 1, horizontal_intercepts = 2, vertical_intercepts = 3,
             horizontal_length_um = 100, vertical_length_um = 50,
             total_line_length_um = 150, mean_linear_intercept_um = Some 30\<rparr>]"
proof -
  have row: "row = line_row hs vs i"
    unfolding row_def using assms(1) by (rule nth_line_rows)
  have fields: "horizontal_length_um row = hl \<and> vertical_length_um row = vl
       \<and> total_line_length_um row = hl + vl
       \<and> horizontal_intercepts row = hc \<and> vertical_intercepts row = vc"
    unfolding row hl_def vl_def hc_def vc_def by (simp add: line_row_def Let_def)
  have mli: "0 < hc + vc \<longrightarrow> mean_linear_intercept_um row = Some ((hl + vl) / real_of_int (hc + vc))"
    unfolding row hl_def vl_def hc_def vc_def by (simp add: line_row_def Let_def)
  have ex: "line_rows [\<lparr>intercepts = 2, length_um = 100\<rparr>] [\<lparr>intercepts = 3, length_um = 50\<rparr>] =
           [\<lparr>line_number = 1, horizontal_intercepts = 2, vertical_intercepts = 3,
             horizontal_length_um = 100, vertical_length_um = 50,
             total_line_length_um = 150, mean_linear_intercept_um = Some 30\<rparr>]"
    by (simp add: line_rows_def line_row_def)
  from fields mli ex show ?thesis by blast
qed

theorem line_rows_totals_witness:
  "total_line_length_um (line_rows [\<lparr>intercepts = 1, length_um = 40\<rparr>, \<lparr>intercepts = 4, length_um = 40\<rparr>]
       [\<lparr>intercepts = 0, length_um = 8\<rparr>] ! 1) = 40
   \<and> mean_linear_intercept_um (line_rows [\<lparr>intercepts = 1, length_um = 40\<rparr>, \<lparr>intercepts = 4, length_um = 40\<rparr>]
       [\<lparr>intercepts = 0, length_um = 8\<rparr>] ! 1) = Some 10"
  using line_rows_totals [of 1 "[\<lparr>intercepts = 1, length_um = 40\<rparr>, \<lparr>intercepts = 4, length_um = 40\<rparr>]"
      "[\<lparr>intercepts = 0, length_um = 8\<rparr>]"]
  by simp

text \<open>
  C2. A row whose intercepts total zero has no MLI (\<open>None\<close>, so neither 0 nor any other
  number); the values averaged are exactly the MLIs of the rows whose total is not zero; the
  image average is their sum over their number, and it is \<open>None\<close> exactly when no row has an
  MLI.
\<close>

theorem zero_intercept_rows_excluded:
  fixes hs vs :: "line_data list"
  defines "rows \<equiv> line_rows hs vs"
  defines "crossings \<equiv> (\<lambda>row. horizontal_intercepts row + vertical_intercepts row)"
  shows "(\<forall>row \<in> set rows. crossings row = 0 \<longrightarrow> mean_linear_intercept_um row = None)
       \<and> valid_mli rows = map the (filter (\<lambda>m. m \<noteq> None) (map mean_linear_intercept_um rows))
       \<and> valid_mli rows =
           map (\<lambda>row. total_line_length_um row / real_of_int (crossings row))
             (filter (\<lambda>row. crossings row \<noteq> 0) rows)
       \<and> average_mli rows =
           (if valid_mli rows = [] then None
            else Some (sum_list (valid_mli rows) / real (length (valid_mli rows))))
       \<and> (average_mli rows = None \<longleftrightarrow> (\<forall>row \<in> set rows. mean_linear_intercept_um row = None))"
proof -
  have zero: "\<forall>row \<in> set rows. crossings row = 0 \<longrightarrow> mean_linear_intercept_um row = None"
    unfolding rows_def crossings_def line_rows_def by (auto simp: line_row_mli_None_iff)
  have defined: "valid_mli rows = map the (filter (\<lambda>m. m \<noteq> None) (map mean_linear_intercept_um rows))"
    by (rule valid_mli_filter)
  have nonzero: "valid_mli rows =
           map (\<lambda>row. total_line_length_um row / real_of_int (crossings row))
             (filter (\<lambda>row. crossings row \<noteq> 0) rows)"
    unfolding rows_def crossings_def by (rule valid_mli_line_rows)
  have avg: "average_mli rows =
           (if valid_mli rows = [] then None
            else Some (sum_list (valid_mli rows) / real (length (valid_mli rows))))"
    by (simp add: average_mli_def)
  have none: "average_mli rows = None \<longleftrightarrow> (\<forall>row \<in> set rows. mean_linear_intercept_um row = None)"
    by (simp add: average_mli_def valid_mli_empty_iff)
  from zero defined nonzero avg none show ?thesis by blast
qed

theorem zero_intercept_rows_excluded_witness:
  "average_mli (line_rows [\<lparr>intercepts = 0, length_um = 100\<rparr>, \<lparr>intercepts = 2, length_um = 100\<rparr>,
                             \<lparr>intercepts = 1, length_um = 100\<rparr>]
                            [\<lparr>intercepts = 0, length_um = 50\<rparr>, \<lparr>intercepts = 3, length_um = 50\<rparr>]) = Some 65
   \<and> average_mli (line_rows [\<lparr>intercepts = 0, length_um = 100\<rparr>] [\<lparr>intercepts = 0, length_um = 50\<rparr>]) = None"
proof -
  let ?hs = "[\<lparr>intercepts = 0, length_um = 100\<rparr>, \<lparr>intercepts = 2, length_um = 100\<rparr>,
              \<lparr>intercepts = 1, length_um = (100::real)\<rparr>]"
  let ?vs = "[\<lparr>intercepts = 0, length_um = 50\<rparr>, \<lparr>intercepts = 3, length_um = (50::real)\<rparr>]"
  have rows: "line_rows ?hs ?vs = map (line_row ?hs ?vs) [0, 1, 2]"
    by (simp add: line_rows_def upt_rec numeral_2_eq_2)
  have a: "average_mli (line_rows ?hs ?vs) = Some 65"
    using zero_intercept_rows_excluded [of ?hs ?vs] unfolding rows
    by (simp add: line_row_def)
  let ?h0 = "[\<lparr>intercepts = 0, length_um = (100::real)\<rparr>]"
  let ?v0 = "[\<lparr>intercepts = 0, length_um = (50::real)\<rparr>]"
  have rows0: "line_rows ?h0 ?v0 = map (line_row ?h0 ?v0) [0]"
    by (simp add: line_rows_def)
  have b: "average_mli (line_rows ?h0 ?v0) = None"
    using zero_intercept_rows_excluded [of ?h0 ?v0] unfolding rows0
    by (simp add: line_row_def)
  from a b show ?thesis by blast
qed

text \<open>
  C5. With \<open>H\<close> horizontal and \<open>V\<close> vertical line results the aggregator produces
  \<open>max H V\<close> rows, numbered from 1; row \<open>i\<close> takes its horizontal side from horizontal line
  \<open>i\<close>, or zero intercepts and zero length when \<open>i \<ge> H\<close>, and its vertical side likewise.
  With 3 horizontal lines and 1 vertical line there are 3 rows, and rows 1 and 2 have zero
  on the vertical side.
\<close>

theorem line_rows_pairing:
  "length (line_rows hs vs) = max (length hs) (length vs)
   \<and> (\<forall>i < max (length hs) (length vs).
        line_number (line_rows hs vs ! i) = int i + 1
      \<and> horizontal_intercepts (line_rows hs vs ! i) = (if i < length hs then intercepts (hs ! i) else 0)
      \<and> horizontal_length_um (line_rows hs vs ! i) = (if i < length hs then length_um (hs ! i) else 0)
      \<and> vertical_intercepts (line_rows hs vs ! i) = (if i < length vs then intercepts (vs ! i) else 0)
      \<and> vertical_length_um (line_rows hs vs ! i) = (if i < length vs then length_um (vs ! i) else 0))
   \<and> length (line_rows [h0, h1, h2] [v0]) = 3
   \<and> vertical_intercepts (line_rows [h0, h1, h2] [v0] ! 0) = intercepts v0
   \<and> vertical_length_um (line_rows [h0, h1, h2] [v0] ! 0) = length_um v0
   \<and> vertical_intercepts (line_rows [h0, h1, h2] [v0] ! 1) = 0
   \<and> vertical_length_um (line_rows [h0, h1, h2] [v0] ! 1) = 0
   \<and> vertical_intercepts (line_rows [h0, h1, h2] [v0] ! 2) = 0
   \<and> vertical_length_um (line_rows [h0, h1, h2] [v0] ! 2) = 0"
proof -
  have len: "length (line_rows hs vs) = max (length hs) (length vs)"
    by (rule length_line_rows)
  have rows: "\<forall>i < max (length hs) (length vs).
        line_number (line_rows hs vs ! i) = int i + 1
      \<and> horizontal_intercepts (line_rows hs vs ! i) = (if i < length hs then intercepts (hs ! i) else 0)
      \<and> horizontal_length_um (line_rows hs vs ! i) = (if i < length hs then length_um (hs ! i) else 0)
      \<and> vertical_intercepts (line_rows hs vs ! i) = (if i < length vs then intercepts (vs ! i) else 0)
      \<and> vertical_length_um (line_rows hs vs ! i) = (if i < length vs then length_um (vs ! i) else 0)"
    by (simp add: nth_line_rows line_row_def Let_def)
  have three: "line_rows [h0, h1, h2] [v0] = map (line_row [h0, h1, h2] [v0]) [0, 1, 2]"
    by (simp add: line_rows_def upt_rec numeral_2_eq_2)
  have ex: "length (line_rows [h0, h1, h2] [v0]) = 3
   \<and> vertical_intercepts (line_rows [h0, h1, h2] [v0] ! 0) = intercepts v0
   \<and> vertical_length_um (line_rows [h0, h1, h2] [v0] ! 0) = length_um v0
   \<and> vertical_intercepts (line_rows [h0, h1, h2] [v0] ! 1) = 0
   \<and> vertical_length_um (line_rows [h0, h1, h2] [v0] ! 1) = 0
   \<and> vertical_intercepts (line_rows [h0, h1, h2] [v0] ! 2) = 0
   \<and> vertical_length_um (line_rows [h0, h1, h2] [v0] ! 2) = 0"
    unfolding three by (simp add: line_row_def Let_def)
  from len rows ex show ?thesis by blast
qed

theorem line_rows_pairing_witness:
  "length (line_rows [\<lparr>intercepts = 4, length_um = 10\<rparr>] [\<lparr>intercepts = 1, length_um = 20\<rparr>, \<lparr>intercepts = 6, length_um = 20\<rparr>]) = 2
   \<and> horizontal_intercepts (line_rows [\<lparr>intercepts = 4, length_um = 10\<rparr>] [\<lparr>intercepts = 1, length_um = 20\<rparr>, \<lparr>intercepts = 6, length_um = 20\<rparr>] ! 1) = 0
   \<and> vertical_intercepts (line_rows [\<lparr>intercepts = 4, length_um = 10\<rparr>] [\<lparr>intercepts = 1, length_um = 20\<rparr>, \<lparr>intercepts = 6, length_um = 20\<rparr>] ! 1) = 6"
  using line_rows_pairing [of "[\<lparr>intercepts = 4, length_um = 10\<rparr>]"
      "[\<lparr>intercepts = 1, length_um = 20\<rparr>, \<lparr>intercepts = 6, length_um = 20\<rparr>]"]
  by simp

section \<open>Grid placement\<close>

lemma py_round_cases:
  "py_round x = \<lfloor>x\<rfloor> \<or> py_round x = \<lfloor>x\<rfloor> + 1"
  by (simp add: py_round_def Let_def)

lemma py_round_down: "py_round x = \<lfloor>x\<rfloor> \<Longrightarrow> x - real_of_int \<lfloor>x\<rfloor> \<le> 1 / 2"
  by (simp add: py_round_def Let_def split: if_splits)

lemma py_round_up: "py_round x = \<lfloor>x\<rfloor> + 1 \<Longrightarrow> 1 / 2 \<le> x - real_of_int \<lfloor>x\<rfloor>"
  by (simp add: py_round_def Let_def split: if_splits)

lemma py_round_lower: "x - 1 / 2 \<le> real_of_int (py_round x)"
proof -
  have fl: "x < real_of_int \<lfloor>x\<rfloor> + 1" by linarith
  from py_round_cases [of x] show ?thesis
  proof
    assume eq: "py_round x = \<lfloor>x\<rfloor>"
    from py_round_down [OF eq] show ?thesis unfolding eq by linarith
  next
    assume eq: "py_round x = \<lfloor>x\<rfloor> + 1"
    show ?thesis unfolding eq by linarith
  qed
qed

lemma py_round_upper: "real_of_int (py_round x) \<le> x + 1 / 2"
proof -
  have fl: "real_of_int \<lfloor>x\<rfloor> \<le> x" by linarith
  from py_round_cases [of x] show ?thesis
  proof
    assume eq: "py_round x = \<lfloor>x\<rfloor>"
    show ?thesis unfolding eq by linarith
  next
    assume eq: "py_round x = \<lfloor>x\<rfloor> + 1"
    from py_round_up [OF eq] show ?thesis unfolding eq by linarith
  qed
qed

lemma py_round_of_int [simp]: "py_round (real_of_int k) = k"
  by (simp add: py_round_def)

lemma py_round_zero [simp]: "py_round 0 = 0"
  using py_round_of_int [of 0] by simp

lemma py_round_one [simp]: "py_round 1 = 1"
  using py_round_of_int [of 1] by simp

lemma py_round_strict:
  assumes "x + 1 < y"
  shows "py_round x < py_round y"
proof -
  have "real_of_int (py_round x) \<le> x + 1 / 2" by (rule py_round_upper)
  also have "\<dots> < y - 1 / 2" using assms by simp
  also have "\<dots> \<le> real_of_int (py_round y)" by (rule py_round_lower)
  finally show ?thesis by simp
qed

lemma py_round_mono:
  assumes "x \<le> y"
  shows "py_round x \<le> py_round y"
proof (cases "\<lfloor>x\<rfloor> = \<lfloor>y\<rfloor>")
  case True
  with assms show ?thesis
    by (auto simp: py_round_def Let_def)
next
  case False
  with assms have "\<lfloor>x\<rfloor> < \<lfloor>y\<rfloor>"
    using floor_mono [of x y] by linarith
  moreover have "py_round x \<le> \<lfloor>x\<rfloor> + 1" using py_round_cases [of x] by auto
  moreover have "\<lfloor>y\<rfloor> \<le> py_round y" using py_round_cases [of y] by auto
  ultimately show ?thesis by linarith
qed

subsection \<open>Rounding to a double\<close>

lemma binary_exponent_bounds:
  assumes "0 < x"
  shows "2 powi binary_exponent x \<le> x" and "x < 2 powi (binary_exponent x + 1)"
proof -
  have "2 powi binary_exponent x \<le> x \<and> x < 2 powi (binary_exponent x + 1)"
  proof (cases "1 \<le> x")
    case True
    define n where "n = nat \<lfloor>x\<rfloor>"
    define k where "k = floorlog 2 n"
    from True have n: "0 < n" by (simp add: n_def)
    from floorlog_bounds [OF n, of 2] have b: "2 ^ (k - 1) \<le> n" "n < 2 ^ k"
      by (simp_all add: k_def)
    from n have k: "0 < k" by (simp add: k_def floorlog_def)
    have e: "binary_exponent x = int (k - 1)"
      using True k by (simp add: binary_exponent_def n_def k_def)
    have "real n = real_of_int \<lfloor>x\<rfloor>"
      using True by (simp add: n_def)
    then have rn: "real n \<le> x" "x < real n + 1"
      by linarith+
    have pn: "(2::real) ^ (k - 1) \<le> real n"
      using of_nat_mono [OF b(1), where 'a = real] by simp
    have lo: "2 powi binary_exponent x \<le> x"
      unfolding e power_int_of_nat using pn rn(1) by (rule order_trans)
    from b(2) have "n + 1 \<le> 2 ^ k" by simp
    from of_nat_mono [OF this, where 'a = real] have np: "real n + 1 \<le> 2 ^ k"
      by simp
    have e1: "binary_exponent x + 1 = int k" using k by (simp add: e)
    have hi: "x < 2 powi (binary_exponent x + 1)"
      unfolding e1 power_int_of_nat using rn(2) np by (rule less_le_trans)
    from lo hi show ?thesis ..
  next
    case False
    define y where "y = 1 / x"
    define m where "m = nat (\<lceil>y\<rceil> - 1)"
    define k where "k = floorlog 2 m"
    from False assms have y: "1 < y" by (simp add: y_def)
    then have cy: "2 \<le> \<lceil>y\<rceil>" by linarith
    then have m: "0 < m" by (simp add: m_def)
    from floorlog_bounds [OF m, of 2] have b: "2 ^ (k - 1) \<le> m" "m < 2 ^ k"
      by (simp_all add: k_def)
    from m have k: "0 < k" by (simp add: k_def floorlog_def)
    have e: "binary_exponent x = - int k"
      using False by (simp add: binary_exponent_def m_def k_def y_def)
    have "real m = real_of_int \<lceil>y\<rceil> - 1"
      using cy by (simp add: m_def)
    then have rm: "real m < y" "y \<le> real m + 1"
      by linarith+
    from b(2) have "m + 1 \<le> 2 ^ k" by simp
    from of_nat_mono [OF this, where 'a = real] have "real m + 1 \<le> 2 ^ k"
      by simp
    with rm(2) have "y \<le> 2 ^ k" by (rule order_trans)
    then have "1 / 2 ^ k \<le> x"
      using assms by (simp add: y_def field_simps)
    then have lo: "2 powi binary_exponent x \<le> x"
      by (simp add: e power_int_minus_divide)
    have "(2::real) ^ (k - 1) \<le> real m"
      using of_nat_mono [OF b(1), where 'a = real] by simp
    then have "2 ^ (k - 1) < y" using rm(1) by (rule le_less_trans)
    then have "x < 1 / 2 ^ (k - 1)"
      using assms by (simp add: y_def field_simps)
    moreover have "binary_exponent x + 1 = - int (k - 1)" using k by (simp add: e)
    ultimately have hi: "x < 2 powi (binary_exponent x + 1)"
      by (simp add: power_int_minus_divide)
    from lo hi show ?thesis ..
  qed
  then show "2 powi binary_exponent x \<le> x" and "x < 2 powi (binary_exponent x + 1)"
    by simp_all
qed

lemma binary_exponent_mono:
  assumes "0 < x" "x \<le> y"
  shows "binary_exponent x \<le> binary_exponent y"
proof (rule ccontr)
  assume "\<not> binary_exponent x \<le> binary_exponent y"
  then have "binary_exponent y + 1 \<le> binary_exponent x" by simp
  then have "(2::real) powi (binary_exponent y + 1) \<le> 2 powi binary_exponent x"
    by (intro power_int_increasing) simp_all
  with binary_exponent_bounds(1) [OF assms(1)] binary_exponent_bounds(2) [of y] assms
  show False by simp
qed


lemma pow2_less_imp:
  assumes "(2::real) powi a < 2 powi b"
  shows "a < b"
proof (rule ccontr)
  assume "\<not> a < b"
  then have "b \<le> a" by simp
  then have "(2::real) powi b \<le> 2 powi a"
    by (intro power_int_increasing) simp_all
  with assms show False by simp
qed

lemma round_double_zero [simp]: "round_double 0 = 0"
  by (simp add: round_double_def)

lemma round_double_pos:
  assumes "0 < x"
  shows "round_double x =
         real_of_int (py_round (x / 2 powi (max (binary_exponent x) (- 1022) - 52)))
           * 2 powi (max (binary_exponent x) (- 1022) - 52)"
  using assms by (simp add: round_double_def Let_def)

lemma round_double_nonneg:
  assumes "0 \<le> x"
  shows "0 \<le> round_double x"
proof (cases "x = 0")
  case True
  then show ?thesis by simp
next
  case False
  with assms have x: "0 < x" by simp
  let ?ulp = "(2::real) powi (max (binary_exponent x) (- 1022) - 52)"
  have "py_round 0 \<le> py_round (x / ?ulp)"
    using x by (intro py_round_mono) simp
  then show ?thesis
    unfolding round_double_pos [OF x] by simp
qed

text \<open>A positive value with exponent \<open>e\<close> rounds to a value between \<open>2 ^ e\<close> and \<open>2 ^ (e + 1)\<close>.\<close>

lemma round_double_upper:
  assumes "0 < x"
  shows "round_double x \<le> 2 powi (max (binary_exponent x) (- 1022) + 1)"
proof -
  let ?e = "max (binary_exponent x) (- 1022)"
  let ?ulp = "(2::real) powi (?e - 52)"
  have ulp: "0 < ?ulp" by simp
  have "x < 2 powi (binary_exponent x + 1)"
    using assms by (rule binary_exponent_bounds)
  also have "\<dots> \<le> 2 powi (?e + 1)"
    by (intro power_int_increasing) simp_all
  also have "\<dots> = 2 ^ 53 * ?ulp"
    using power_int_add [of "2::real" 53 "?e - 52"] by (simp add: algebra_simps)
  finally have "x / ?ulp \<le> real_of_int (2 ^ 53)"
    using ulp by (simp add: pos_divide_le_eq)
  then have "py_round (x / ?ulp) \<le> py_round (real_of_int (2 ^ 53))"
    by (rule py_round_mono)
  then have "real_of_int (py_round (x / ?ulp)) \<le> real_of_int (2 ^ 53)"
    unfolding py_round_of_int by (simp only: of_int_le_iff)
  then have "real_of_int (py_round (x / ?ulp)) \<le> 2 ^ 53"
    by simp
  then have "real_of_int (py_round (x / ?ulp)) * ?ulp \<le> 2 ^ 53 * ?ulp"
    using ulp by (intro mult_right_mono) simp_all
  also have "2 ^ 53 * ?ulp = 2 powi (?e + 1)"
    using power_int_add [of "2::real" 53 "?e - 52"] by (simp add: algebra_simps)
  finally show ?thesis
    unfolding round_double_pos [OF assms] .
qed

lemma round_double_lower:
  assumes "0 < x" "- 1022 \<le> binary_exponent x"
  shows "2 powi binary_exponent x \<le> round_double x"
proof -
  let ?e = "binary_exponent x"
  let ?ulp = "(2::real) powi (?e - 52)"
  have m: "max ?e (- 1022) = ?e" using assms(2) by simp
  have ulp: "0 < ?ulp" by simp
  have split: "2 ^ 52 * ?ulp = 2 powi ?e"
    using power_int_add [of "2::real" 52 "?e - 52"] by (simp add: algebra_simps)
  have "2 powi ?e \<le> x" using assms(1) by (rule binary_exponent_bounds)
  then have "real_of_int (2 ^ 52) \<le> x / ?ulp"
    using ulp split by (simp add: pos_le_divide_eq)
  then have "py_round (real_of_int (2 ^ 52)) \<le> py_round (x / ?ulp)"
    by (rule py_round_mono)
  then have "real_of_int (2 ^ 52) \<le> real_of_int (py_round (x / ?ulp))"
    unfolding py_round_of_int by (simp only: of_int_le_iff)
  then have "2 ^ 52 \<le> real_of_int (py_round (x / ?ulp))"
    by simp
  then have "2 ^ 52 * ?ulp \<le> real_of_int (py_round (x / ?ulp)) * ?ulp"
    using ulp by (intro mult_right_mono) simp_all
  then show ?thesis
    unfolding round_double_pos [OF assms(1)] m split .
qed

lemma round_double_mono_pos:
  assumes "0 < x" "x \<le> y"
  shows "round_double x \<le> round_double y"
proof -
  from assms have y: "0 < y" by simp
  let ?ex = "max (binary_exponent x) (- 1022)"
  let ?ey = "max (binary_exponent y) (- 1022)"
  have le: "?ex \<le> ?ey"
    using binary_exponent_mono [OF assms] by simp
  show ?thesis
  proof (cases "?ex = ?ey")
    case True
    let ?ulp = "(2::real) powi (?ey - 52)"
    have "x / ?ulp \<le> y / ?ulp"
      using assms(2) by (simp add: divide_right_mono)
    then have "py_round (x / ?ulp) \<le> py_round (y / ?ulp)"
      by (rule py_round_mono)
    then have "real_of_int (py_round (x / ?ulp)) * ?ulp \<le> real_of_int (py_round (y / ?ulp)) * ?ulp"
      by (intro mult_right_mono) simp_all
    then show ?thesis
      unfolding round_double_pos [OF assms(1)] round_double_pos [OF y] True .
  next
    case False
    with le have lt: "?ex + 1 \<le> ?ey" by simp
    then have normal: "- 1022 \<le> binary_exponent y" and ey: "?ey = binary_exponent y"
      by simp_all
    have "round_double x \<le> 2 powi (?ex + 1)"
      using assms(1) by (rule round_double_upper)
    also have "\<dots> \<le> 2 powi ?ey"
      using lt by (intro power_int_increasing) simp_all
    also have "\<dots> \<le> round_double y"
      unfolding ey using y normal by (rule round_double_lower)
    finally show ?thesis .
  qed
qed

lemma round_double_mono:
  assumes "0 \<le> x" "x \<le> y"
  shows "round_double x \<le> round_double y"
proof (cases "x = 0")
  case True
  with assms show ?thesis by (simp add: round_double_nonneg)
next
  case False
  with assms show ?thesis by (intro round_double_mono_pos) simp_all
qed

text \<open>Integers below \<open>2 ^ 53\<close> are doubles.\<close>

lemma round_double_of_int:
  assumes "1 \<le> k" "k < 2 ^ 53"
  shows "round_double (real_of_int k) = real_of_int k"
proof -
  let ?x = "real_of_int k"
  let ?e = "binary_exponent ?x"
  have x: "0 < ?x" using assms(1) by simp
  have "2 powi ?e \<le> ?x" using x by (rule binary_exponent_bounds)
  also have "?x < 2 ^ 53"
    using assms(2) of_int_less_iff [of k "2 ^ 53", where 'a = real] by simp
  finally have "2 powi ?e < (2::real) powi 53" by simp
  then have "?e < 53" by (rule pow2_less_imp)
  have "1 \<le> ?x" using assms(1) by simp
  also have "?x < 2 powi (?e + 1)" using x by (rule binary_exponent_bounds)
  finally have "(2::real) powi 0 < 2 powi (?e + 1)" by simp
  then have "0 < ?e + 1" by (rule pow2_less_imp)
  then have "0 \<le> ?e" by simp
  define d where "d = nat (52 - ?e)"
  have d: "?e - 52 = - int d"
    using \<open>?e < 53\<close> by (simp add: d_def)
  from \<open>0 \<le> ?e\<close> have m: "max ?e (- 1022) = ?e" by simp
  have ulp: "(2::real) powi (?e - 52) = 1 / 2 ^ d"
    by (simp add: d power_int_minus_divide)
  have "?x / (2 powi (?e - 52)) = real_of_int (k * 2 ^ d)"
    by (simp add: ulp)
  then have "py_round (?x / (2 powi (?e - 52))) = k * 2 ^ d"
    by (simp only: py_round_of_int)
  then show ?thesis
    unfolding round_double_pos [OF x] m by (simp add: ulp)
qed

lemma round_double_one [simp]: "round_double 1 = 1"
  using round_double_of_int [of 1] by simp

text \<open>
  The relative error of rounding a value in the normal range is at most \<open>2 ^ - 53\<close>, that
  is one part in 9007199254740992.
\<close>

lemma round_double_error:
  assumes "1 \<le> x"
  shows "\<bar>round_double x - x\<bar> \<le> x / 9007199254740992"
proof -
  from assms have x: "0 < x" by simp
  let ?e = "binary_exponent x"
  let ?ulp = "(2::real) powi (?e - 52)"
  have "(2::real) powi 0 \<le> x" using assms by simp
  also have "x < 2 powi (?e + 1)" using x by (rule binary_exponent_bounds)
  finally have "0 < ?e + 1" by (rule pow2_less_imp)
  then have "0 \<le> ?e" by simp
  then have m: "max ?e (- 1022) = ?e" by simp
  have ulp: "0 < ?ulp" by simp
  have split: "2 ^ 52 * ?ulp = 2 powi ?e"
    using power_int_add [of "2::real" 52 "?e - 52"] by (simp add: algebra_simps)
  have "2 powi ?e \<le> x" using x by (rule binary_exponent_bounds)
  with split have small: "?ulp / 2 \<le> x / 9007199254740992" by simp
  let ?m = "real_of_int (py_round (x / ?ulp))"
  have "\<bar>?m - x / ?ulp\<bar> \<le> 1 / 2"
    using py_round_lower [of "x / ?ulp"] py_round_upper [of "x / ?ulp"] by linarith
  then have "\<bar>?m - x / ?ulp\<bar> * ?ulp \<le> 1 / 2 * ?ulp"
    using ulp by (intro mult_right_mono) simp_all
  moreover have "\<bar>?m - x / ?ulp\<bar> * ?ulp = \<bar>?m * ?ulp - x\<bar>"
  proof -
    have "\<bar>?m - x / ?ulp\<bar> * ?ulp = \<bar>(?m - x / ?ulp) * ?ulp\<bar>"
      using ulp by (simp add: abs_mult)
    also have "(?m - x / ?ulp) * ?ulp = ?m * ?ulp - x"
      using ulp by (simp add: left_diff_distrib)
    finally show ?thesis .
  qed
  ultimately have "\<bar>?m * ?ulp - x\<bar> \<le> ?ulp / 2" by simp
  with small show ?thesis
    unfolding round_double_pos [OF x] m by linarith
qed


subsection \<open>The positions\<close>

lemma length_auto_positions: "length (auto_positions L N) = nat N"
  by (simp add: auto_positions_def Let_def)

lemma nth_auto_positions:
  assumes "i < nat N"
  shows "auto_positions L N ! i =
         grid_position (round_double (real_of_int L / real_of_int (N + 1))) (int i)"
proof -
  from assms have pos: "0 < N" by simp
  from assms have "[0..N - 1] ! i = 0 + int i"
    by (intro nth_upto) linarith
  with assms pos show ?thesis
    by (simp add: auto_positions_def Let_def)
qed

lemma grid_position_nonneg:
  assumes "0 \<le> t" "0 \<le> k"
  shows "0 \<le> grid_position t k"
proof -
  have "0 \<le> round_double (real_of_int (k + 1))"
    using assms(2) by (intro round_double_nonneg) simp
  with assms(1) have "0 \<le> t * round_double (real_of_int (k + 1))" by simp
  then have "0 \<le> round_double (t * round_double (real_of_int (k + 1)))"
    by (rule round_double_nonneg)
  then have "py_round 0 \<le> py_round (round_double (t * round_double (real_of_int (k + 1))))"
    by (rule py_round_mono)
  then show ?thesis by (simp add: grid_position_def)
qed

lemma grid_position_mono:
  assumes "0 \<le> t" "0 \<le> j" "j \<le> k"
  shows "grid_position t j \<le> grid_position t k"
proof -
  have j0: "0 \<le> round_double (real_of_int (j + 1))"
    using assms(2) by (intro round_double_nonneg) simp
  have "round_double (real_of_int (j + 1)) \<le> round_double (real_of_int (k + 1))"
    using assms(2,3) by (intro round_double_mono) simp_all
  then have "t * round_double (real_of_int (j + 1)) \<le> t * round_double (real_of_int (k + 1))"
    using assms(1) by (rule mult_left_mono)
  moreover have "0 \<le> t * round_double (real_of_int (j + 1))"
    using assms(1) j0 by simp
  ultimately have "round_double (t * round_double (real_of_int (j + 1)))
      \<le> round_double (t * round_double (real_of_int (k + 1)))"
    by (intro round_double_mono)
  then show ?thesis
    unfolding grid_position_def by (rule py_round_mono)
qed

lemma step_nonneg:
  assumes "0 < L" "0 < N"
  shows "0 \<le> round_double (real_of_int L / real_of_int (N + 1))"
  using assms by (intro round_double_nonneg) simp

lemma auto_positions_nonneg:
  assumes "0 < L" "i < nat N"
  shows "0 \<le> auto_positions L N ! i"
proof -
  from assms(2) have "0 < N" by simp
  from step_nonneg [OF assms(1) this] show ?thesis
    unfolding nth_auto_positions [OF assms(2)] by (intro grid_position_nonneg) simp_all
qed

lemma auto_positions_sorted:
  assumes "0 < L"
  shows "sorted (auto_positions L N)"
proof -
  have "auto_positions L N ! i \<le> auto_positions L N ! j" if "i \<le> j" "j < nat N" for i j
  proof -
    from that have i: "i < nat N" and N: "0 < N" by simp_all
    from step_nonneg [OF assms N] show ?thesis
      unfolding nth_auto_positions [OF i] nth_auto_positions [OF that(2)]
      using that(1) by (intro grid_position_mono) simp_all
  qed
  then show ?thesis
    by (simp add: sorted_iff_nth_mono length_auto_positions)
qed

text \<open>
  For an axis of at most \<open>2 ^ 25\<close> pixels and no more lines than fit strictly inside it, the
  computed product is within \<open>2 ^ - 27\<close> (one part in 134217728) of the exact value \<open>L / (N + 1) * k\<close>.
\<close>

lemma grid_value_error:
  assumes "0 < L" "N + 1 \<le> L" "L \<le> 2 ^ 25" "1 \<le> k" "k \<le> N"
  defines "s \<equiv> real_of_int L / real_of_int (N + 1)"
  shows "\<bar>round_double (round_double s * round_double (real_of_int k)) - s * real_of_int k\<bar>
         \<le> 1 / 134217728"
    and "1 \<le> s * real_of_int k"
    and "s * real_of_int k \<le> real_of_int L - 1"
proof -
  let ?k = "real_of_int k"
  from assms have n1: "0 < real_of_int (N + 1)" by simp
  from assms(2) have "real_of_int (N + 1) \<le> real_of_int L" by (simp only: of_int_le_iff)
  then have s1: "1 \<le> s" using n1 by (simp add: s_def pos_le_divide_eq)
  have L25: "real_of_int L \<le> 33554432"
    using assms(3) of_int_le_iff [of L "2 ^ 25", where 'a = real] by simp
  have k1: "1 \<le> ?k" using assms(4) by simp
  have "s * ?k \<le> s * real_of_int N"
    using assms(5) s1 by (intro mult_left_mono) simp_all
  also have "s * real_of_int N = real_of_int L - s"
    using n1 by (simp add: s_def field_simps)
  finally show sk: "s * ?k \<le> real_of_int L - 1" using s1 by simp
  have "1 * 1 \<le> s * ?k" using s1 k1 by (intro mult_mono) simp_all
  then show sk1: "1 \<le> s * ?k" by simp
  have "k < 2 ^ 53" using assms(2,3,5) by simp
  with assms(4) have kk: "round_double ?k = ?k" by (rule round_double_of_int)
  define t where "t = round_double s"
  have et: "\<bar>t - s\<bar> \<le> s / 9007199254740992"
    unfolding t_def using s1 by (rule round_double_error)
  have "round_double 1 \<le> t"
    unfolding t_def using s1 by (intro round_double_mono) simp_all
  then have t1: "1 \<le> t" by simp
  define X where "X = s * ?k"
  define P where "P = t * ?k"
  define Q where "Q = round_double P"
  have "P - X = (t - s) * ?k"
    by (simp add: P_def X_def left_diff_distrib)
  then have "\<bar>P - X\<bar> = \<bar>t - s\<bar> * ?k"
    using k1 by (simp add: abs_mult)
  also have "\<dots> \<le> s / 9007199254740992 * ?k"
    using et k1 by (intro mult_right_mono) simp_all
  also have "\<dots> = X / 9007199254740992" by (simp add: X_def)
  finally have ep: "\<bar>P - X\<bar> \<le> X / 9007199254740992" .
  have "1 * 1 \<le> t * ?k" using t1 k1 by (intro mult_mono) simp_all
  then have P1: "1 \<le> P" by (simp add: P_def)
  then have eq: "\<bar>Q - P\<bar> \<le> P / 9007199254740992"
    unfolding Q_def by (rule round_double_error)
  have X25: "X \<le> 33554431" using sk L25 unfolding X_def by linarith
  have X0: "0 \<le> X" using sk1 unfolding X_def by linarith
  have "\<bar>Q - X\<bar> \<le> 1 / 134217728"
    using ep eq X25 X0 by linarith
  then show "\<bar>round_double (round_double s * round_double ?k) - s * ?k\<bar> \<le> 1 / 134217728"
    by (simp only: Q_def P_def X_def t_def kk)
qed

lemma auto_positions_inside:
  assumes "0 < L" "N + 1 \<le> L" "L \<le> 2 ^ 25" "i < nat N"
  shows "0 < auto_positions L N ! i \<and> auto_positions L N ! i < L"
proof -
  let ?s = "real_of_int L / real_of_int (N + 1)"
  let ?q = "round_double (round_double ?s * round_double (real_of_int (int i + 1)))"
  from assms(4) have k: "1 \<le> int i + 1" "int i + 1 \<le> N" by simp_all
  note e = grid_value_error [OF assms(1-3) k]
  from e(1) e(2) have "1 / 2 < ?q" by linarith
  with py_round_lower [of ?q] have "0 < real_of_int (py_round ?q)" by linarith
  then have lo: "0 < py_round ?q" by simp
  from e(1) e(3) have "?q + 1 / 2 < real_of_int L" by linarith
  with py_round_upper [of ?q] have "real_of_int (py_round ?q) < real_of_int L" by linarith
  then have hi: "py_round ?q < L" by simp
  from lo hi show ?thesis
    unfolding nth_auto_positions [OF assms(4)] grid_position_def by simp
qed

lemma successor_quotient:
  fixes a :: real
  assumes "0 < a"
  shows "(a + 1) / a = 1 + 1 / a"
  using assms by (simp add: add_divide_distrib)

lemma auto_positions_strict:
  assumes "0 < L" "N + 1 \<le> L" "L \<le> 2 ^ 25" "i < j" "j < nat N"
  shows "auto_positions L N ! i < auto_positions L N ! j"
proof -
  from assms have i: "i < nat N" by simp
  let ?s = "real_of_int L / real_of_int (N + 1)"
  let ?ki = "real_of_int (int i + 1)"
  let ?kj = "real_of_int (int j + 1)"
  let ?qi = "round_double (round_double ?s * round_double ?ki)"
  let ?qj = "round_double (round_double ?s * round_double ?kj)"
  from assms have n1: "0 < real_of_int (N + 1)" by simp
  from i have ki: "1 \<le> int i + 1" "int i + 1 \<le> N" by simp_all
  from assms(5) have kj: "1 \<le> int j + 1" "int j + 1 \<le> N" by simp_all
  have "py_round ?qi < py_round ?qj"
  proof (cases "L = N + 1")
    case True
    with n1 have s: "?s = 1" by simp
    have "int i + 1 < 2 ^ 53" "int j + 1 < 2 ^ 53"
      using assms(2,3) ki(2) kj(2) by simp_all
    then have "round_double ?ki = ?ki" "round_double ?kj = ?kj"
      using ki(1) kj(1) by (simp_all only: round_double_of_int)
    then have "?qi = ?ki" "?qj = ?kj"
      by (simp_all only: s round_double_one mult_1)
    then show ?thesis
      using assms(4) by (simp only: py_round_of_int)
  next
    case False
    with assms(2) have "N + 1 + 1 \<le> L" by simp
    then have "real_of_int (N + 1 + 1) \<le> real_of_int L" by (simp only: of_int_le_iff)
    then have "(real_of_int (N + 1) + 1) / real_of_int (N + 1) \<le> ?s"
      using n1 by (intro divide_right_mono) simp_all
    moreover have "(real_of_int (N + 1) + 1) / real_of_int (N + 1) = 1 + 1 / real_of_int (N + 1)"
      using n1 by (rule successor_quotient)
    ultimately have s': "1 + 1 / real_of_int (N + 1) \<le> ?s" by simp
    have "real_of_int (N + 1) \<le> real_of_int L"
      using assms(2) by (simp only: of_int_le_iff)
    also have "real_of_int L \<le> 33554432"
      using assms(3) of_int_le_iff [of L "2 ^ 25", where 'a = real] by simp
    finally have "1 / 33554432 \<le> 1 / real_of_int (N + 1)"
      using n1 by (intro frac_le) simp_all
    with s' have s: "1 + 1 / 33554432 \<le> ?s" by linarith
    have s0: "0 \<le> ?s" using s by linarith
    have kij: "?ki + 1 \<le> ?kj" using assms(4) by simp
    have "?s * (?ki + 1) \<le> ?s * ?kj"
      using kij s0 by (rule mult_left_mono)
    then have gap: "?s * ?ki + ?s \<le> ?s * ?kj"
      by (simp only: distrib_left mult.right_neutral)
    note ei = grid_value_error(1) [OF assms(1-3) ki]
    note ej = grid_value_error(1) [OF assms(1-3) kj]
    from ei ej gap s have "?qi + 1 < ?qj"
      by linarith
    then show ?thesis by (rule py_round_strict)
  qed
  then show ?thesis
    unfolding nth_auto_positions [OF i] nth_auto_positions [OF assms(5)] grid_position_def
    by simp
qed

lemma strictly_increasing_lower:
  fixes ps :: "int list"
  assumes "sorted_wrt (<) ps" "ps \<noteq> []" "0 < ps ! 0" "i < length ps"
  shows "int i + 1 \<le> ps ! i"
  using assms(4)
proof (induction i)
  case 0
  with assms(3) show ?case by simp
next
  case (Suc i)
  then have "ps ! i < ps ! Suc i"
    using assms(1) by (simp add: sorted_wrt_iff_nth_less)
  with Suc show ?case by simp
qed

lemma auto_positions_inside_only_if:
  assumes "0 < N"
    and inside: "\<forall>i < nat N. 0 < auto_positions L N ! i \<and> auto_positions L N ! i < L"
    and incr: "sorted_wrt (<) (auto_positions L N)"
  shows "N + 1 \<le> L"
proof -
  let ?ps = "auto_positions L N"
  from assms(1) have last: "nat N - 1 < nat N" by simp
  have ne: "?ps \<noteq> []" using assms(1) length_auto_positions [of L N] by auto
  have "0 < ?ps ! 0" using inside assms(1) by simp
  from strictly_increasing_lower [OF incr ne this, of "nat N - 1"] last
  have "int (nat N - 1) + 1 \<le> ?ps ! (nat N - 1)"
    by (simp add: length_auto_positions)
  moreover have "?ps ! (nat N - 1) < L" using inside last by blast
  ultimately show ?thesis using assms(1) by simp
qed

text \<open>
  The rounding of concrete values is computed by the simplifier from the definitions; the
  positions are computed in three steps, the step first.
\<close>

lemmas eval_round =
  round_double_def binary_exponent_def compute_floorlog py_round_def Let_def

lemma auto_positions_4_7: "auto_positions 4 7 = [0, 1, 2, 2, 2, 3, 4]"
proof -
  have "auto_positions 4 7 = map (grid_position (round_double (4 / 8))) [0, 1, 2, 3, 4, 5, 6]"
    by (simp add: auto_positions_def upto_rec1 Let_def)
  also have "round_double (4 / 8) = 1 / 2"
    by (simp add: eval_round)
  also have "map (grid_position (1 / 2)) [0, 1, 2, 3, 4, 5, 6] = [0, 1, 2, 2, 2, 3, 4]"
    by (simp add: grid_position_def eval_round)
  finally show ?thesis .
qed

text \<open>
  With 13 lines on an axis of 29 pixels the double product \<open>29 / 14 * 7\<close> lies just above
  14.5, and the seventh position is 15.
\<close>

lemma auto_positions_29_13:
  "auto_positions 29 13 = [2, 4, 6, 8, 10, 12, 15, 17, 19, 21, 23, 25, 27]"
proof -
  have "auto_positions 29 13 =
      map (grid_position (round_double (29 / 14))) [0, 1, 2, 3, 4, 5, 6, 7, 8, 9, 10, 11, 12]"
    by (simp add: auto_positions_def upto_rec1 Let_def)
  also have "round_double (29 / 14) = 4664442471205157 / 2251799813685248"
    by (simp add: eval_round)
  also have "map (grid_position (4664442471205157 / 2251799813685248))
        [0, 1, 2, 3, 4, 5, 6, 7, 8, 9, 10, 11, 12]
      = [2, 4, 6, 8, 10, 12, 15, 17, 19, 21, 23, 25, 27]"
    by (simp add: grid_position_def eval_round)
  finally show ?thesis .
qed

text \<open>
  C4, as stated, fails: for axis length 4 and 7 lines the step and every product are exact
  halves, the positions are 0, 1, 2, 2, 2, 3, 4, so the first is not above 0, the last is
  not below the axis length and the fourth does not exceed the third.
\<close>

theorem auto_positions_not_strictly_inside:
  "\<not> 0 < auto_positions 4 7 ! 0
   \<and> \<not> auto_positions 4 7 ! 6 < 4
   \<and> \<not> auto_positions 4 7 ! 2 < auto_positions 4 7 ! 3"
  by (simp add: auto_positions_4_7)

text \<open>
  C4, amended. For an axis length \<open>L > 0\<close> and a count \<open>N\<close>, grid placement returns the empty
  list if \<open>N \<le> 0\<close>, otherwise \<open>N\<close> integer positions, position \<open>i\<close> (from 0) being
  \<open>round(L / (N + 1) * (i + 1))\<close> as Python computes it: the quotient and the product are
  rounded to doubles and \<open>round\<close> takes a tie to the even integer. The positions are not
  negative and never decrease. When \<open>N + 1 \<le> L \<le> 2 ^ 25\<close> they lie strictly between 0 and
  \<open>L\<close> and strictly increase; when \<open>N \<ge> L\<close> they cannot.
\<close>

theorem auto_positions_grid:
  assumes "0 < L"
  shows "(N \<le> 0 \<longrightarrow> auto_positions L N = [])
       \<and> length (auto_positions L N) = nat N
       \<and> (\<forall>i < nat N. auto_positions L N ! i =
             py_round (round_double (round_double (real_of_int L / real_of_int (N + 1))
                                      * round_double (real_of_int (int i + 1)))))
       \<and> (\<forall>i < nat N. 0 \<le> auto_positions L N ! i)
       \<and> sorted (auto_positions L N)
       \<and> (N + 1 \<le> L \<and> L \<le> 2 ^ 25 \<longrightarrow>
            (\<forall>i < nat N. 0 < auto_positions L N ! i \<and> auto_positions L N ! i < L)
            \<and> sorted_wrt (<) (auto_positions L N))
       \<and> (0 < N \<and> (\<forall>i < nat N. 0 < auto_positions L N ! i \<and> auto_positions L N ! i < L)
            \<and> sorted_wrt (<) (auto_positions L N) \<longrightarrow> N + 1 \<le> L)"
proof -
  have empty: "N \<le> 0 \<longrightarrow> auto_positions L N = []"
    by (simp add: auto_positions_def)
  have len: "length (auto_positions L N) = nat N"
    by (rule length_auto_positions)
  have nth: "\<forall>i < nat N. auto_positions L N ! i =
             py_round (round_double (round_double (real_of_int L / real_of_int (N + 1))
                                      * round_double (real_of_int (int i + 1))))"
    by (simp add: nth_auto_positions grid_position_def)
  have nonneg: "\<forall>i < nat N. 0 \<le> auto_positions L N ! i"
    using auto_positions_nonneg [OF assms] by blast
  have mono: "sorted (auto_positions L N)"
    using assms by (rule auto_positions_sorted)
  have strict: "N + 1 \<le> L \<and> L \<le> 2 ^ 25 \<longrightarrow>
            (\<forall>i < nat N. 0 < auto_positions L N ! i \<and> auto_positions L N ! i < L)
            \<and> sorted_wrt (<) (auto_positions L N)"
  proof
    assume b: "N + 1 \<le> L \<and> L \<le> 2 ^ 25"
    then have le: "N + 1 \<le> L" and L25: "L \<le> 2 ^ 25" by simp_all
    have "\<forall>i < nat N. 0 < auto_positions L N ! i \<and> auto_positions L N ! i < L"
      using auto_positions_inside [OF assms le L25] by blast
    moreover have "sorted_wrt (<) (auto_positions L N)"
      using auto_positions_strict [OF assms le L25]
      by (simp add: sorted_wrt_iff_nth_less length_auto_positions)
    ultimately show "(\<forall>i < nat N. 0 < auto_positions L N ! i \<and> auto_positions L N ! i < L)
            \<and> sorted_wrt (<) (auto_positions L N)" ..
  qed
  have only_if: "0 < N \<and> (\<forall>i < nat N. 0 < auto_positions L N ! i \<and> auto_positions L N ! i < L)
            \<and> sorted_wrt (<) (auto_positions L N) \<longrightarrow> N + 1 \<le> L"
    using auto_positions_inside_only_if [of N L] by blast
  from empty len nth nonneg mono strict only_if show ?thesis by blast
qed

theorem auto_positions_grid_witness:
  "length (auto_positions 100 3) = 3 \<and> sorted (auto_positions 100 3)
   \<and> sorted_wrt (<) (auto_positions 100 3)
   \<and> auto_positions 100 0 = []
   \<and> sorted (auto_positions 4 7)"
proof -
  have a: "(0::int) < 100" "(0::int) < 4" "(3::int) + 1 \<le> 100 \<and> (100::int) \<le> 2 ^ 25"
    by simp_all
  have "sorted (auto_positions 4 7)"
    using auto_positions_grid [OF a(2), of 7] by blast
  moreover have "length (auto_positions 100 3) = 3 \<and> sorted (auto_positions 100 3)
   \<and> sorted_wrt (<) (auto_positions 100 3)"
    using auto_positions_grid [OF a(1), of 3] a(3) by simp
  moreover have "auto_positions 100 0 = []"
    using auto_positions_grid [OF a(1), of 0] by simp
  ultimately show ?thesis by blast
qed

section \<open>Segmentation\<close>

lemma length_remove_small_objects: "length (remove_small_objects ar k) = length ar"
  by (simp add: remove_small_objects_def)

lemma row_length_remove_small_objects:
  "r < length ar \<Longrightarrow> length (remove_small_objects ar k ! r) = length (ar ! r)"
  by (simp add: remove_small_objects_def)

lemma nth_remove_small_objects:
  "r < length ar \<Longrightarrow> c < length (ar ! r) \<Longrightarrow>
   remove_small_objects ar k ! r ! c =
     (ar ! r ! c \<and> (k = 0 \<or> \<not> int (length (component ar (r, c))) < k))"
  by (simp add: remove_small_objects_def)

lemma remove_small_objects_antimono:
  assumes "a \<le> b" "0 < a" "r < length ar" "c < length (ar ! r)"
    and "remove_small_objects ar b ! r ! c"
  shows "remove_small_objects ar a ! r ! c"
  using assms by (auto simp: nth_remove_small_objects)

lemma count_nonzero_mono:
  assumes "list_all2 (list_all2 (\<lambda>y x. y \<noteq> 0 \<longrightarrow> x \<noteq> 0)) m2 m1"
  shows "count_nonzero m2 \<le> count_nonzero m1"
  using assms
proof (induction rule: list_all2_induct)
  case Nil
  show ?case by (simp add: count_nonzero_def)
next
  case (Cons row2 rows2 row1 rows1)
  from Cons.hyps(1) have "length (filter (\<lambda>v. v \<noteq> 0) row2) \<le> length (filter (\<lambda>v. v \<noteq> 0) row1)"
    by (induction rule: list_all2_induct) auto
  with Cons.IH show ?case by (simp add: count_nonzero_def)
qed

text \<open>The boolean mask before it is converted to \<open>uint8\<close>, as a function of \<open>min_area\<close>.\<close>

lemma cleaned_mask_antimono:
  fixes tm :: "bool list list"
  defines "cleaned \<equiv> (\<lambda>k. if 0 < k then remove_small_objects tm k else tm)"
  assumes "a \<le> b"
  shows "list_all2 (list_all2 (\<lambda>y x. y \<longrightarrow> x)) (cleaned b) (cleaned a)"
proof -
  have len: "length (cleaned k) = length tm" for k
    by (simp add: cleaned_def length_remove_small_objects)
  have row: "length (cleaned k ! r) = length (tm ! r)" if "r < length tm" for k r
    using that by (simp add: cleaned_def row_length_remove_small_objects)
  have sub: "cleaned b ! r ! c \<longrightarrow> cleaned a ! r ! c"
    if "r < length tm" "c < length (tm ! r)" for r c
    using that assms(2) by (auto simp: cleaned_def nth_remove_small_objects)
  show ?thesis
    by (simp add: list_all2_conv_all_nth len row sub)
qed

text \<open>
  C6. With every other input fixed, a larger \<open>min_area\<close> gives a mask of the same shape
  whose tissue pixels (the non-zero entries) are among those of the mask for the smaller
  \<open>min_area\<close>, so their number does not grow.
\<close>

theorem min_area_shrinks_mask:
  assumes "min_area config \<le> larger"
    and "load_image_and_mask lib fs path config = Inr (image1, mask1)"
  shows "\<exists>mask2.
           load_image_and_mask lib fs path (config\<lparr>min_area := larger\<rparr>) = Inr (image1, mask2)
         \<and> length mask2 = length mask1
         \<and> (\<forall>r < length mask1. length (mask2 ! r) = length (mask1 ! r)
              \<and> (\<forall>c < length (mask1 ! r). mask2 ! r ! c \<noteq> 0 \<longrightarrow> mask1 ! r ! c \<noteq> 0))
         \<and> count_nonzero mask2 \<le> count_nonzero mask1"
proof -
  from assms(2) obtain img where img: "cv_imread lib fs path = Some img"
    by (auto simp: load_image_and_mask_def split: option.splits)
  define gray1 where "gray1 =
    (if sigma_denoise config > 0
     then GaussianBlur lib (cvtColor_BGR2GRAY lib img) (sigma_denoise config)
     else cvtColor_BGR2GRAY lib img)"
  define tm where "tm = map (map (\<lambda>v. real_of_int (uint v) < threshold_otsu lib gray1)) gray1"
  define cleaned where "cleaned = (\<lambda>k. if 0 < k then remove_small_objects tm k else tm)"
  define to_uint8 :: "bool list list \<Rightarrow> gray" where
    "to_uint8 = map (map (\<lambda>b. if b then 1 else 0))"
  have load: "load_image_and_mask lib fs path (config\<lparr>min_area := k\<rparr>) = Inr (img, to_uint8 (cleaned k))" for k
    by (simp add: load_image_and_mask_def img Let_def gray1_def tm_def cleaned_def to_uint8_def)
  from load [of "min_area config"] assms(2)
  have one: "image1 = img" "mask1 = to_uint8 (cleaned (min_area config))"
    by simp_all
  let ?mask2 = "to_uint8 (cleaned larger)"
  have bools: "list_all2 (list_all2 (\<lambda>y x. y \<longrightarrow> x)) (cleaned larger) (cleaned (min_area config))"
    unfolding cleaned_def using assms(1) by (rule cleaned_mask_antimono)
  then have rel: "list_all2 (list_all2 (\<lambda>y x. y \<noteq> 0 \<longrightarrow> x \<noteq> 0)) ?mask2 mask1"
    unfolding one to_uint8_def list.rel_map
    by (rule list_all2_mono) (auto elim: list_all2_mono)
  have len: "length ?mask2 = length mask1"
    using rel by (rule list_all2_lengthD)
  have rows: "\<forall>r < length mask1. length (?mask2 ! r) = length (mask1 ! r)
              \<and> (\<forall>c < length (mask1 ! r). ?mask2 ! r ! c \<noteq> 0 \<longrightarrow> mask1 ! r ! c \<noteq> 0)"
  proof (intro allI impI)
    fix r assume r: "r < length mask1"
    with rel len have rr: "list_all2 (\<lambda>y x. y \<noteq> 0 \<longrightarrow> x \<noteq> 0) (?mask2 ! r) (mask1 ! r)"
      by (simp add: list_all2_conv_all_nth)
    then show "length (?mask2 ! r) = length (mask1 ! r)
              \<and> (\<forall>c < length (mask1 ! r). ?mask2 ! r ! c \<noteq> 0 \<longrightarrow> mask1 ! r ! c \<noteq> 0)"
      by (simp add: list_all2_conv_all_nth)
  qed
  have cnt: "count_nonzero ?mask2 \<le> count_nonzero mask1"
    using rel by (rule count_nonzero_mono)
  from load [of larger] one(1) len rows cnt show ?thesis by blast
qed

theorem min_area_shrinks_mask_witness:
  "load_image_and_mask toy_library toy_files ''/data/b.png'' (toy_config\<lparr>min_area := 2\<rparr>)
     = Inr ([[[200, 200, 200], [0, 0, 0], [200, 200, 200]],
             [[200, 200, 200], [0, 0, 0], [200, 200, 200]],
             [[200, 200, 200], [0, 0, 0], [200, 200, 200]]],
            [[0, 1, 0], [0, 1, 0], [0, 1, 0]])
   \<and> load_image_and_mask toy_library toy_files ''/data/b.png'' (toy_config\<lparr>min_area := 4\<rparr>)
     = Inr ([[[200, 200, 200], [0, 0, 0], [200, 200, 200]],
             [[200, 200, 200], [0, 0, 0], [200, 200, 200]],
             [[200, 200, 200], [0, 0, 0], [200, 200, 200]]],
            [[0, 0, 0], [0, 0, 0], [0, 0, 0]])
   \<and> count_nonzero [[0, 0, 0], [0, 0, 0], [0, 0, 0]] \<le> count_nonzero [[0, 1, 0], [0, 1, 0], [0, 1, 0]]"
proof -
  let ?img = "[[[200, 200, 200], [0, 0, 0], [200, 200, 200]],
             [[200, 200, 200], [0, 0, 0], [200, 200, 200]],
             [[200, 200, 200], [0, 0, 0], [200, 200, 200::uint8]]]"
  have small: "load_image_and_mask toy_library toy_files ''/data/b.png'' (toy_config\<lparr>min_area := 2\<rparr>)
     = Inr (?img, [[0, 1, 0], [0, 1, 0], [0, 1, 0]])"
    by code_simp
  have large: "load_image_and_mask toy_library toy_files ''/data/b.png'' (toy_config\<lparr>min_area := 4\<rparr>)
     = Inr (?img, [[0, 0, 0], [0, 0, 0], [0, 0, 0]])"
    by code_simp
  have le: "min_area (toy_config\<lparr>min_area := 2\<rparr>) \<le> 4"
    by (simp add: toy_config_def)
  from min_area_shrinks_mask [OF le small] large
  have "count_nonzero [[0, 0, 0], [0, 0, 0], [0, 0, 0]] \<le> count_nonzero [[0, 1, 0], [0, 1, 0], [0, 1, 0]]"
    by auto
  with small large show ?thesis by blast
qed

section \<open>Concrete runs\<close>

lemma auto_positions_3_2: "auto_positions 3 2 = [1, 2]"
proof -
  have "auto_positions 3 2 = map (grid_position (round_double (3 / 3))) [0, 1]"
    by (simp add: auto_positions_def upto_rec1 Let_def)
  also have "round_double (3 / 3) = 1"
    by (simp add: eval_round)
  also have "map (grid_position 1) [0, 1] = [1, 2]"
    by (simp add: grid_position_def eval_round)
  finally show ?thesis .
qed

lemma auto_positions_3_1: "auto_positions 3 1 = [2]"
proof -
  have "auto_positions 3 1 = map (grid_position (round_double (3 / 2))) [0]"
    by (simp add: auto_positions_def upto_rec1 Let_def)
  also have "round_double (3 / 2) = 3 / 2"
    by (simp add: eval_round)
  also have "map (grid_position (3 / 2)) [0] = [2]"
    by (simp add: grid_position_def eval_round)
  finally show ?thesis .
qed

lemma auto_positions_2_2: "auto_positions 2 2 = [1, 1]"
proof -
  have "auto_positions 2 2 = map (grid_position (round_double (2 / 3))) [0, 1]"
    by (simp add: auto_positions_def upto_rec1 Let_def)
  also have "round_double (2 / 3) = 6004799503160661 / 9007199254740992"
    by (simp add: eval_round)
  also have "map (grid_position (6004799503160661 / 9007199254740992)) [0, 1] = [1, 1]"
    by (simp add: grid_position_def eval_round)
  finally show ?thesis .
qed

lemma auto_positions_2_1: "auto_positions 2 1 = [1]"
proof -
  have "auto_positions 2 1 = map (grid_position (round_double (2 / 2))) [0]"
    by (simp add: auto_positions_def upto_rec1 Let_def)
  also have "round_double (2 / 2) = 1"
    by (simp add: eval_round)
  also have "map (grid_position 1) [0] = [1]"
    by (simp add: grid_position_def eval_round)
  finally show ?thesis .
qed

text \<open>The stages of \<open>measure_image\<close>, so that each can be evaluated on its own.\<close>

lemma measure_image_staged:
  assumes "load_image_and_mask lib fs path config = Inr (img, m)"
    and "shape m = (h, w)"
    and "auto_positions h (n_lines_horizontal config) = hp"
    and "auto_positions w (n_lines_vertical config) = vp"
    and "cvtColor_GRAY2BGR lib (map (map (\<lambda>v. v * 255)) m) = thr"
    and "horizontal_lines lib config m w hp (img, thr, []) = Inr (o1, t1, hdata)"
    and "vertical_lines lib config m h vp (o1, t1, []) = Inr (o2, t2, vdata)"
    and "line_rows hdata vdata = rows"
    and "average_mli rows = avg"
  shows "measure_image lib fs path config = Inr (rows, avg, o2, t2)"
  by (simp add: measure_image_def assms Let_def)

lemma toy_measure_b:
  "measure_image toy_library toy_files ''/data/b.png'' toy_config =
     Inr ([\<lparr>line_number = 1, horizontal_intercepts = 2, vertical_intercepts = 0,
             horizontal_length_um = 100, vertical_length_um = 50,
             total_line_length_um = 150, mean_linear_intercept_um = Some 75\<rparr>,
           \<lparr>line_number = 2, horizontal_intercepts = 2, vertical_intercepts = 0,
             horizontal_length_um = 100, vertical_length_um = 0,
             total_line_length_um = 100, mean_linear_intercept_um = Some 50\<rparr>],
          Some (125 / 2),
          [[[200, 200, 200], [0, 0, 0], [200, 200, 200]],
           [[200, 200, 200], [0, 0, 0], [200, 200, 200]],
           [[200, 200, 200], [0, 0, 0], [200, 200, 200]]],
          [[[0, 0, 0], [255, 255, 255], [0, 0, 0]],
           [[0, 0, 0], [255, 255, 255], [0, 0, 0]],
           [[0, 0, 0], [255, 255, 255], [0, 0, 0]]])"
proof (rule measure_image_staged)
  let ?img = "[[[200, 200, 200], [0, 0, 0], [200, 200, 200]],
               [[200, 200, 200], [0, 0, 0], [200, 200, 200]],
               [[200, 200, 200], [0, 0, 0], [200, 200, 200::uint8]]]"
  let ?m = "[[0, 1, 0], [0, 1, 0], [0, 1, 0::uint8]]"
  let ?thr = "[[[0, 0, 0], [255, 255, 255], [0, 0, 0]],
               [[0, 0, 0], [255, 255, 255], [0, 0, 0]],
               [[0, 0, 0], [255, 255, 255], [0, 0, 0::uint8]]]"
  let ?h = "[\<lparr>intercepts = 2, length_um = 100\<rparr>, \<lparr>intercepts = 2, length_um = 100\<rparr>]"
  let ?v = "[\<lparr>intercepts = 0, length_um = 50\<rparr>]"
  show "load_image_and_mask toy_library toy_files ''/data/b.png'' toy_config = Inr (?img, ?m)"
    by code_simp
  show "shape ?m = (3, 3)"
    by code_simp
  show "auto_positions 3 (n_lines_horizontal toy_config) = [1, 2]"
    by (simp add: toy_config_def auto_positions_3_2)
  show "auto_positions 3 (n_lines_vertical toy_config) = [2]"
    by (simp add: toy_config_def auto_positions_3_1)
  show "cvtColor_GRAY2BGR toy_library (map (map (\<lambda>v. v * 255)) ?m) = ?thr"
    by code_simp
  show "horizontal_lines toy_library toy_config ?m 3 [1, 2] (?img, ?thr, []) = Inr (?img, ?thr, ?h)"
    by code_simp
  show "vertical_lines toy_library toy_config ?m 3 [2] (?img, ?thr, []) = Inr (?img, ?thr, ?v)"
    by code_simp
  show "line_rows ?h ?v =
      [\<lparr>line_number = 1, horizontal_intercepts = 2, vertical_intercepts = 0,
             horizontal_length_um = 100, vertical_length_um = 50,
             total_line_length_um = 150, mean_linear_intercept_um = Some 75\<rparr>,
           \<lparr>line_number = 2, horizontal_intercepts = 2, vertical_intercepts = 0,
             horizontal_length_um = 100, vertical_length_um = 0,
             total_line_length_um = 100, mean_linear_intercept_um = Some 50\<rparr>]"
    by code_simp
  show "average_mli
      [\<lparr>line_number = 1, horizontal_intercepts = 2, vertical_intercepts = 0,
             horizontal_length_um = 100, vertical_length_um = 50,
             total_line_length_um = 150, mean_linear_intercept_um = Some 75\<rparr>,
           \<lparr>line_number = 2, horizontal_intercepts = 2, vertical_intercepts = 0,
             horizontal_length_um = 100, vertical_length_um = 0,
             total_line_length_um = 100, mean_linear_intercept_um = Some 50\<rparr>] = Some (125 / 2)"
    by code_simp
qed

lemma toy_run_b:
  "run_mli_analysis toy_library toy_files ''/data/b.png'' toy_config =
     Inr \<lparr>lines =
            [\<lparr>line_number = 1, horizontal_intercepts = 2, vertical_intercepts = 0,
               horizontal_length_um = 100, vertical_length_um = 50,
               total_line_length_um = 150, mean_linear_intercept_um = Some 75\<rparr>,
             \<lparr>line_number = 2, horizontal_intercepts = 2, vertical_intercepts = 0,
               horizontal_length_um = 100, vertical_length_um = 0,
               total_line_length_um = 100, mean_linear_intercept_um = Some 50\<rparr>],
          average_mli_um = Some (125 / 2),
          processed_image_base64 = ''///AAA//////AAA//////AAA///'',
          threshold_image_base64 = ''AAA///AAAAAA///AAAAAA///AAA''\<rparr>"
proof -
  have p: "encode_image_to_base64 toy_library
      [[[200, 200, 200], [0, 0, 0], [200, 200, 200]],
       [[200, 200, 200], [0, 0, 0], [200, 200, 200]],
       [[200, 200, 200], [0, 0, 0], [200, 200, 200]]] = Inr ''///AAA//////AAA//////AAA///''"
    by code_simp
  have t: "encode_image_to_base64 toy_library
      [[[0, 0, 0], [255, 255, 255], [0, 0, 0]],
       [[0, 0, 0], [255, 255, 255], [0, 0, 0]],
       [[0, 0, 0], [255, 255, 255], [0, 0, 0]]] = Inr ''AAA///AAAAAA///AAAAAA///AAA''"
    by code_simp
  show ?thesis
    by (simp add: run_mli_analysis_def toy_measure_b p t)
qed

lemma toy_measure_c:
  "measure_image toy_library toy_files ''/data/c.png'' toy_config =
      Inr ([\<lparr>line_number = 1, horizontal_intercepts = 1, vertical_intercepts = 0,
              horizontal_length_um = 100, vertical_length_um = 50,
              total_line_length_um = 150, mean_linear_intercept_um = Some 150\<rparr>,
            \<lparr>line_number = 2, horizontal_intercepts = 1, vertical_intercepts = 0,
              horizontal_length_um = 100, vertical_length_um = 0,
              total_line_length_um = 100, mean_linear_intercept_um = Some 100\<rparr>],
           Some 125,
           [[[254, 254, 254], [0, 0, 0]], [[254, 254, 254], [0, 0, 0]]],
           [[[0, 0, 0], [255, 255, 255]], [[0, 0, 0], [255, 255, 255]]])"
proof (rule measure_image_staged)
  let ?img = "[[[254, 254, 254], [0, 0, 0]], [[254, 254, 254], [0, 0, 0::uint8]]]"
  let ?m = "[[0, 1], [0, 1::uint8]]"
  let ?thr = "[[[0, 0, 0], [255, 255, 255]], [[0, 0, 0], [255, 255, 255::uint8]]]"
  let ?h = "[\<lparr>intercepts = 1, length_um = 100\<rparr>, \<lparr>intercepts = 1, length_um = 100\<rparr>]"
  let ?v = "[\<lparr>intercepts = 0, length_um = 50\<rparr>]"
  show "load_image_and_mask toy_library toy_files ''/data/c.png'' toy_config = Inr (?img, ?m)"
    by code_simp
  show "shape ?m = (2, 2)"
    by code_simp
  show "auto_positions 2 (n_lines_horizontal toy_config) = [1, 1]"
    by (simp add: toy_config_def auto_positions_2_2)
  show "auto_positions 2 (n_lines_vertical toy_config) = [1]"
    by (simp add: toy_config_def auto_positions_2_1)
  show "cvtColor_GRAY2BGR toy_library (map (map (\<lambda>v. v * 255)) ?m) = ?thr"
    by code_simp
  show "horizontal_lines toy_library toy_config ?m 2 [1, 1] (?img, ?thr, []) = Inr (?img, ?thr, ?h)"
    by code_simp
  show "vertical_lines toy_library toy_config ?m 2 [1] (?img, ?thr, []) = Inr (?img, ?thr, ?v)"
    by code_simp
  show "line_rows ?h ?v =
      [\<lparr>line_number = 1, horizontal_intercepts = 1, vertical_intercepts = 0,
              horizontal_length_um = 100, vertical_length_um = 50,
              total_line_length_um = 150, mean_linear_intercept_um = Some 150\<rparr>,
            \<lparr>line_number = 2, horizontal_intercepts = 1, vertical_intercepts = 0,
              horizontal_length_um = 100, vertical_length_um = 0,
              total_line_length_um = 100, mean_linear_intercept_um = Some 100\<rparr>]"
    by code_simp
  show "average_mli
      [\<lparr>line_number = 1, horizontal_intercepts = 1, vertical_intercepts = 0,
              horizontal_length_um = 100, vertical_length_um = 50,
              total_line_length_um = 150, mean_linear_intercept_um = Some 150\<rparr>,
            \<lparr>line_number = 2, horizontal_intercepts = 1, vertical_intercepts = 0,
              horizontal_length_um = 100, vertical_length_um = 0,
              total_line_length_um = 100, mean_linear_intercept_um = Some 100\<rparr>] = Some 125"
    by code_simp
qed

section \<open>The pipeline: failures and dependence on the inputs\<close>

lemma run_read_failure:
  "cv_imread lib fs path = None \<Longrightarrow>
   run_mli_analysis lib fs path config =
     Inl (ImageProcessingError (''Unable to read image at '' @ path))"
  by (simp add: run_mli_analysis_def measure_image_def load_image_and_mask_def)

lemma run_encode_failure:
  assumes "measure_image lib fs path config = Inr (rows, average, original_overlay, threshold_overlay)"
    and "imencode_png lib original_overlay = None \<or> imencode_png lib threshold_overlay = None"
  shows "run_mli_analysis lib fs path config =
     Inl (ImageProcessingError ''Unable to encode processed image to PNG'')"
  using assms
  by (auto simp: run_mli_analysis_def encode_image_to_base64_def split: option.splits)

lemma measure_image_read:
  "measure_image lib fs path config = Inr result \<Longrightarrow> \<exists>img. cv_imread lib fs path = Some img"
  by (auto simp: measure_image_def load_image_and_mask_def split: option.splits)

lemma run_success:
  assumes "run_mli_analysis lib fs path config = Inr metrics"
  shows "\<exists>img original_overlay threshold_overlay png1 png2.
           cv_imread lib fs path = Some img
         \<and> measure_image lib fs path config =
             Inr (lines metrics, average_mli_um metrics, original_overlay, threshold_overlay)
         \<and> imencode_png lib original_overlay = Some png1
         \<and> imencode_png lib threshold_overlay = Some png2
         \<and> processed_image_base64 metrics = b64encode lib png1
         \<and> threshold_image_base64 metrics = b64encode lib png2"
proof -
  from assms obtain rows average original_overlay threshold_overlay
    where m: "measure_image lib fs path config = Inr (rows, average, original_overlay, threshold_overlay)"
    by (auto simp: run_mli_analysis_def split: sum.splits)
  from measure_image_read [OF m] obtain img where img: "cv_imread lib fs path = Some img" ..
  from assms m obtain png1 png2
    where "imencode_png lib original_overlay = Some png1"
      and "imencode_png lib threshold_overlay = Some png2"
      and "metrics = \<lparr>lines = rows, average_mli_um = average,
                       processed_image_base64 = b64encode lib png1,
                       threshold_image_base64 = b64encode lib png2\<rparr>"
    by (auto simp: run_mli_analysis_def encode_image_to_base64_def split: option.splits)
  with m img show ?thesis by auto
qed

text \<open>
  C7. When the source image cannot be read or decoded, the run ends in an
  \<open>ImageProcessingError\<close> whose message names the path; when one of the two finished overlays
  cannot be encoded, it ends in an \<open>ImageProcessingError\<close> whose message says so. A run that
  returns metrics has read the image and encoded both overlays: there is no partial result.
\<close>

theorem read_or_encode_failure_aborts:
  "(cv_imread lib fs path = None \<longrightarrow>
      run_mli_analysis lib fs path config =
        Inl (ImageProcessingError (''Unable to read image at '' @ path)))
   \<and> (measure_image lib fs path config = Inr (rows, average, original_overlay, threshold_overlay)
        \<and> (imencode_png lib original_overlay = None \<or> imencode_png lib threshold_overlay = None) \<longrightarrow>
      run_mli_analysis lib fs path config =
        Inl (ImageProcessingError ''Unable to encode processed image to PNG''))
   \<and> (run_mli_analysis lib fs path config = Inr metrics \<longrightarrow>
        (\<exists>img overlay1 overlay2 png1 png2.
           cv_imread lib fs path = Some img
         \<and> measure_image lib fs path config =
             Inr (lines metrics, average_mli_um metrics, overlay1, overlay2)
         \<and> imencode_png lib overlay1 = Some png1
         \<and> imencode_png lib overlay2 = Some png2
         \<and> processed_image_base64 metrics = b64encode lib png1
         \<and> threshold_image_base64 metrics = b64encode lib png2))"
  using run_read_failure [of lib fs path config]
    run_encode_failure [of lib fs path config rows average original_overlay threshold_overlay]
    run_success [of lib fs path config metrics]
  by blast

theorem read_or_encode_failure_aborts_witness:
  "run_mli_analysis toy_library toy_files ''/data/broken.png'' toy_config =
     Inl (ImageProcessingError ''Unable to read image at /data/broken.png'')
   \<and> run_mli_analysis toy_library toy_files ''/data/c.png'' toy_config =
     Inl (ImageProcessingError ''Unable to encode processed image to PNG'')"
proof -
  have read: "cv_imread toy_library toy_files ''/data/broken.png'' = None"
    by code_simp
  have measured: "measure_image toy_library toy_files ''/data/c.png'' toy_config =
      Inr ([\<lparr>line_number = 1, horizontal_intercepts = 1, vertical_intercepts = 0,
              horizontal_length_um = 100, vertical_length_um = 50,
              total_line_length_um = 150, mean_linear_intercept_um = Some 150\<rparr>,
            \<lparr>line_number = 2, horizontal_intercepts = 1, vertical_intercepts = 0,
              horizontal_length_um = 100, vertical_length_um = 0,
              total_line_length_um = 100, mean_linear_intercept_um = Some 100\<rparr>],
           Some 125,
           [[[254, 254, 254], [0, 0, 0]], [[254, 254, 254], [0, 0, 0]]],
           [[[0, 0, 0], [255, 255, 255]], [[0, 0, 0], [255, 255, 255]]])"
    by (rule toy_measure_c)
  have enc: "imencode_png toy_library [[[254, 254, 254], [0, 0, 0]], [[254, 254, 254], [0, 0, 0]]] = None"
    by code_simp
  from read_or_encode_failure_aborts [of toy_library toy_files "''/data/broken.png''" toy_config] read
  have a: "run_mli_analysis toy_library toy_files ''/data/broken.png'' toy_config =
     Inl (ImageProcessingError ''Unable to read image at /data/broken.png'')"
    by simp
  from read_or_encode_failure_aborts [where lib = toy_library and fs = toy_files
      and path = "''/data/c.png''" and config = toy_config
      and original_overlay = "[[[254, 254, 254], [0, 0, 0]], [[254, 254, 254], [0, 0, 0]]]"
      and threshold_overlay = "[[[0, 0, 0], [255, 255, 255]], [[0, 0, 0], [255, 255, 255]]]"]
    measured enc
  have b: "run_mli_analysis toy_library toy_files ''/data/c.png'' toy_config =
     Inl (ImageProcessingError ''Unable to encode processed image to PNG'')"
    by blast
  from a b show ?thesis ..
qed

lemma cv_imread_cong: "fs1 path = fs2 path \<Longrightarrow> cv_imread lib fs1 path = cv_imread lib fs2 path"
  by (simp add: cv_imread_def)

text \<open>
  A run reads the file system at the path of the image and nowhere else.
\<close>

lemma run_reads_one_file:
  assumes "fs1 path = fs2 path"
  shows "run_mli_analysis lib fs1 path config = run_mli_analysis lib fs2 path config"
  using cv_imread_cong [of fs1 path fs2 lib, OF assms]
  by (simp add: run_mli_analysis_def measure_image_def load_image_and_mask_def)

lemma horizontal_lines_config:
  assumes "line_length_um_horizontal c1 = line_length_um_horizontal c2"
  shows "horizontal_lines lib c1 m w ys st = horizontal_lines lib c2 m w ys st"
proof (induction ys arbitrary: st)
  case Nil
  show ?case by simp
next
  case (Cons y ys)
  obtain a b c where st: "st = (a, b, c)" by (cases st)
  show ?case unfolding st
    by (simp add: assms Cons.IH Let_def split: prod.splits sum.splits)
qed

lemma vertical_lines_config:
  assumes "line_length_um_vertical c1 = line_length_um_vertical c2"
  shows "vertical_lines lib c1 m h xs st = vertical_lines lib c2 m h xs st"
proof (induction xs arbitrary: st)
  case Nil
  show ?case by simp
next
  case (Cons x xs)
  obtain a b c where st: "st = (a, b, c)" by (cases st)
  show ?case unfolding st
    by (simp add: assms Cons.IH Let_def split: prod.splits sum.splits)
qed

text \<open>
  C10. Two configurations that agree on every field but \<open>scale_um_per_pixel\<close> and
  \<open>magnification\<close> give the same result on every image: the same rows, the same average,
  the same encoded overlays, or the same error.
\<close>

theorem scale_and_magnification_unused:
  assumes "line_length_um_horizontal c1 = line_length_um_horizontal c2"
    and "line_length_um_vertical c1 = line_length_um_vertical c2"
    and "n_lines_horizontal c1 = n_lines_horizontal c2"
    and "n_lines_vertical c1 = n_lines_vertical c2"
    and "sigma_denoise c1 = sigma_denoise c2"
    and "min_area c1 = min_area c2"
  shows "run_mli_analysis lib fs path c1 = run_mli_analysis lib fs path c2"
proof -
  have load: "load_image_and_mask lib fs path c1 = load_image_and_mask lib fs path c2"
    unfolding load_image_and_mask_def assms(5,6) ..
  have "measure_image lib fs path c1 = measure_image lib fs path c2"
    unfolding measure_image_def load assms(3,4)
      horizontal_lines_config [OF assms(1)] vertical_lines_config [OF assms(2)] ..
  then show ?thesis by (simp add: run_mli_analysis_def)
qed

theorem scale_and_magnification_unused_witness:
  "run_mli_analysis toy_library toy_files ''/data/a.png''
     (toy_config\<lparr>scale_um_per_pixel := 3, magnification := ''40x''\<rparr>)
   = run_mli_analysis toy_library toy_files ''/data/a.png'' toy_config"
  by (rule scale_and_magnification_unused) simp_all

section \<open>The batch loop\<close>

text \<open>
  The images attempted by the loop: those before the first image that fails, and that image
  too when its file is on disk.
\<close>

lemma analyze_images_attempted:
  fixes lib fs base_dir config_data
  defines "on_disk \<equiv> (\<lambda>r. fs (resolve_path base_dir (stored_path r)) \<noteq> None)"
  defines "succeeds \<equiv> (\<lambda>r. fs (resolve_path base_dir (stored_path r)) \<noteq> None
      \<and> \<not> isl (run_mli_analysis lib fs (resolve_path base_dir (stored_path r)) config_data))"
  shows "fst (analyze_images lib fs base_dir config_data irs acc att) =
         att @ map image_id (takeWhile succeeds (map snd irs)
                             @ filter on_disk (take 1 (dropWhile succeeds (map snd irs))))"
proof (induction irs arbitrary: acc att)
  case Nil
  show ?case by simp
next
  case (Cons ir irs)
  obtain index r where ir: "ir = (index, r)" by (cases ir)
  let ?p = "resolve_path base_dir (stored_path r)"
  show ?case
  proof (cases "fs ?p = None")
    case True
    then show ?thesis
      by (simp add: ir succeeds_def on_disk_def Let_def)
  next
    case False
    show ?thesis
    proof (cases "run_mli_analysis lib fs ?p config_data")
      case (Inl e)
      with False show ?thesis
        by (cases e) (simp_all add: ir succeeds_def on_disk_def Let_def)
    next
      case (Inr metrics)
      with False have "succeeds r" by (simp add: succeeds_def)
      with False Inr show ?thesis
        by (simp add: ir Cons.IH Let_def)
    qed
  qed
qed

text \<open>When every image succeeds the loop returns one result per image, in order.\<close>

lemma analyze_images_success:
  fixes lib fs base_dir config_data
  defines "run \<equiv> (\<lambda>r. run_mli_analysis lib fs (resolve_path base_dir (stored_path r)) config_data)"
  defines "succeeds \<equiv> (\<lambda>r. fs (resolve_path base_dir (stored_path r)) \<noteq> None \<and> \<not> isl (run r))"
  defines "image_result \<equiv> (\<lambda>(index, r).
      \<lparr>result_image_id = image_id r,
       image_number = int index + 1,
       name = original_filename r,
       result_average_mli_um = average_mli_um (projr (run r)),
       result_processed_image_base64 = processed_image_base64 (projr (run r)),
       result_threshold_image_base64 = threshold_image_base64 (projr (run r)),
       result_lines = lines (projr (run r))\<rparr>)"
  assumes "list_all succeeds (map snd irs)"
  shows "snd (analyze_images lib fs base_dir config_data irs acc att) =
         Inr (acc @ map image_result irs)"
  using assms(4)
proof (induction irs arbitrary: acc att)
  case Nil
  show ?case by simp
next
  case (Cons ir irs)
  obtain index r where ir: "ir = (index, r)" by (cases ir)
  let ?p = "resolve_path base_dir (stored_path r)"
  from Cons.prems have ok: "fs ?p \<noteq> None" "\<not> isl (run_mli_analysis lib fs ?p config_data)"
    and rest: "list_all succeeds (map snd irs)"
    by (simp_all add: ir succeeds_def run_def)
  from ok(2) obtain metrics where m: "run_mli_analysis lib fs ?p config_data = Inr metrics"
    by (cases "run_mli_analysis lib fs ?p config_data") simp_all
  from ok(1) m show ?case
    by (simp add: ir Cons.IH [OF rest] Let_def image_result_def run_def)
qed

text \<open>
  Otherwise the loop ends with the failure of the first image that does not succeed: 404
  when its file is missing, 500 with the message of the \<open>ImageProcessingError\<close>, or the
  exception the handler does not catch.
\<close>

lemma analyze_images_failure:
  fixes lib fs base_dir config_data
  defines "path \<equiv> (\<lambda>r. resolve_path base_dir (stored_path r))"
  defines "run \<equiv> (\<lambda>r. run_mli_analysis lib fs (path r) config_data)"
  defines "succeeds \<equiv> (\<lambda>r. fs (path r) \<noteq> None \<and> \<not> isl (run r))"
  defines "failure_of \<equiv> (\<lambda>r.
      if fs (path r) = None
      then Inl (HTTPException 404 (''Image not found on disk: '' @ path r))
      else (case run r of
              Inl (ImageProcessingError message) \<Rightarrow> Inl (HTTPException 500 message)
            | Inl IndexError \<Rightarrow> Inl (Unhandled IndexError)
            | Inr metrics \<Rightarrow> Inr []))"
  assumes "\<not> list_all succeeds (map snd irs)"
  shows "snd (analyze_images lib fs base_dir config_data irs acc att) =
         failure_of (hd (dropWhile succeeds (map snd irs)))"
  using assms(5)
proof (induction irs arbitrary: acc att)
  case Nil
  then show ?case by simp
next
  case (Cons ir irs)
  obtain index r where ir: "ir = (index, r)" by (cases ir)
  let ?p = "resolve_path base_dir (stored_path r)"
  show ?case
  proof (cases "fs ?p = None")
    case True
    then show ?thesis
      by (simp add: ir succeeds_def failure_of_def path_def Let_def)
  next
    case False
    show ?thesis
    proof (cases "run_mli_analysis lib fs ?p config_data")
      case (Inl e)
      with False show ?thesis
        by (cases e) (simp_all add: ir succeeds_def failure_of_def path_def run_def Let_def)
    next
      case (Inr metrics)
      with False have ok: "succeeds r" by (simp add: succeeds_def path_def run_def)
      with Cons.prems have rest: "\<not> list_all succeeds (map snd irs)" by (simp add: ir)
      from False Inr ok show ?thesis
        by (auto simp add: ir Cons.IH [OF rest] Let_def)
    qed
  qed
qed

lemma map_snd_enumerate: "map snd (zip [0..<length xs] xs) = xs"
  by (simp add: map_snd_zip)

lemma first_failing_fails: "\<not> list_all P xs \<Longrightarrow> \<not> P (hd (dropWhile P xs))"
  by (induction xs) auto

lemma takeWhile_all: "list_all P xs \<Longrightarrow> takeWhile P xs = xs \<and> dropWhile P xs = []"
  by (induction xs) simp_all

text \<open>
  C8, as stated, fails: animal \<open>m1\<close> has the images \<open>i1\<close> and \<open>i2\<close>; \<open>i1\<close> cannot be decoded,
  the request ends with status 500 and \<open>i2\<close> is never attempted.
\<close>

theorem later_image_not_attempted:
  "map image_id (get_images_for_animal toy_state ''m1'') = [''i1'', ''i2'']
   \<and> fst (snd (analyze toy_library toy_files ''/srv/backend'' ''2024-02-02T00:00:00''
                  toy_state ''m1'' toy_config)) = [''i1'']
   \<and> snd (snd (analyze toy_library toy_files ''/srv/backend'' ''2024-02-02T00:00:00''
                  toy_state ''m1'' toy_config))
       = Inl (HTTPException 500 ''Unable to read image at /data/broken.png'')"
  by code_simp

text \<open>
  C8, amended. When a batch of images belonging to one animal is analyzed, the images are
  attempted in order and the first failure ends the request: the images attempted are those
  before the first image that fails, and that image too when its file is on disk. No later
  image is attempted. An animal without images gives status 404. When every image succeeds,
  the response holds one result per image, in order, and is recorded as the result of the
  animal. Otherwise the stored state is unchanged and the response is the failure of the
  first failing image: status 404 naming the path when its file is not on disk, status 500
  with the message of the \<open>ImageProcessingError\<close> when the analysis raises one, and any other
  exception of the analysis uncaught.
\<close>

theorem analyze_stops_at_first_failure:
  fixes lib fs base_dir now st animal config_data
  defines "records \<equiv> get_images_for_animal st animal"
  defines "path \<equiv> (\<lambda>r. resolve_path base_dir (stored_path r))"
  defines "run \<equiv> (\<lambda>r. run_mli_analysis lib fs (path r) config_data)"
  defines "on_disk \<equiv> (\<lambda>r. fs (path r) \<noteq> None)"
  defines "succeeds \<equiv> (\<lambda>r. fs (path r) \<noteq> None \<and> \<not> isl (run r))"
  defines "image_result \<equiv> (\<lambda>(index, r).
      \<lparr>result_image_id = image_id r,
       image_number = int index + 1,
       name = original_filename r,
       result_average_mli_um = average_mli_um (projr (run r)),
       result_processed_image_base64 = processed_image_base64 (projr (run r)),
       result_threshold_image_base64 = threshold_image_base64 (projr (run r)),
       result_lines = lines (projr (run r))\<rparr>)"
  defines "result \<equiv>
      \<lparr>result_animal_id = animal,
       generated_at = now @ ''Z'',
       images = map image_result (zip [0..<length records] records)\<rparr>"
  defines "outcome \<equiv> analyze lib fs base_dir now st animal config_data"
  defines "first_failing \<equiv> hd (dropWhile succeeds records)"
  shows "fst (snd outcome) =
           map image_id (takeWhile succeeds records
                         @ filter on_disk (take 1 (dropWhile succeeds records)))
       \<and> (records = [] \<longrightarrow>
            outcome = (st, [], Inl (HTTPException 404 ''No images found for this animal'')))
       \<and> (records \<noteq> [] \<and> list_all succeeds records \<longrightarrow>
            outcome = (st\<lparr>state_results := (state_results st)(animal \<mapsto> result)\<rparr>,
                       map image_id records, Inr result))
       \<and> (records \<noteq> [] \<and> \<not> list_all succeeds records \<longrightarrow>
            fst outcome = st
          \<and> (\<not> on_disk first_failing \<longrightarrow>
               snd (snd outcome) =
                 Inl (HTTPException 404 (''Image not found on disk: '' @ path first_failing)))
          \<and> (\<forall>message. on_disk first_failing
                 \<and> run first_failing = Inl (ImageProcessingError message) \<longrightarrow>
               snd (snd outcome) = Inl (HTTPException 500 message))
          \<and> (on_disk first_failing \<and> run first_failing = Inl IndexError \<longrightarrow>
               snd (snd outcome) = Inl (Unhandled IndexError)))"
proof -
  let ?loop = "analyze_images lib fs base_dir config_data (zip [0..<length records] records) [] []"
  have att: "fst ?loop =
      map image_id (takeWhile succeeds records @ filter on_disk (take 1 (dropWhile succeeds records)))"
    using analyze_images_attempted [of lib fs base_dir config_data "zip [0..<length records] records" "[]" "[]"]
    by (simp add: map_snd_enumerate succeeds_def on_disk_def path_def run_def)
  have none: "records = [] \<longrightarrow>
            outcome = (st, [], Inl (HTTPException 404 ''No images found for this animal''))"
    by (simp add: outcome_def analyze_def records_def [symmetric])
  have attempted: "fst (snd outcome) =
           map image_id (takeWhile succeeds records
                         @ filter on_disk (take 1 (dropWhile succeeds records)))"
  proof (cases "records = []")
    case True
    with none show ?thesis by simp
  next
    case False
    then have "fst (snd outcome) = fst ?loop"
      by (simp add: outcome_def analyze_def records_def [symmetric] Let_def
          split: prod.splits sum.splits)
    with att show ?thesis by simp
  qed
  have good: "records \<noteq> [] \<and> list_all succeeds records \<longrightarrow>
            outcome = (st\<lparr>state_results := (state_results st)(animal \<mapsto> result)\<rparr>,
                       map image_id records, Inr result)"
  proof
    assume a: "records \<noteq> [] \<and> list_all succeeds records"
    then have ne: "records \<noteq> []" and all: "list_all succeeds records" by simp_all
    have "snd ?loop = Inr ([] @ map image_result (zip [0..<length records] records))"
      unfolding image_result_def run_def path_def
      by (rule analyze_images_success)
         (use all in \<open>simp add: map_snd_enumerate succeeds_def run_def path_def\<close>)
    moreover have "fst ?loop = map image_id records"
      using att takeWhile_all [OF all] by simp
    ultimately have "?loop = (map image_id records, Inr (map image_result (zip [0..<length records] records)))"
      by (simp add: prod_eq_iff)
    with ne show "outcome = (st\<lparr>state_results := (state_results st)(animal \<mapsto> result)\<rparr>,
                       map image_id records, Inr result)"
      by (simp add: outcome_def analyze_def records_def [symmetric] Let_def
          record_analysis_def result_def)
  qed
  have bad: "records \<noteq> [] \<and> \<not> list_all succeeds records \<longrightarrow>
            fst outcome = st
          \<and> (\<not> on_disk first_failing \<longrightarrow>
               snd (snd outcome) =
                 Inl (HTTPException 404 (''Image not found on disk: '' @ path first_failing)))
          \<and> (\<forall>message. on_disk first_failing
                 \<and> run first_failing = Inl (ImageProcessingError message) \<longrightarrow>
               snd (snd outcome) = Inl (HTTPException 500 message))
          \<and> (on_disk first_failing \<and> run first_failing = Inl IndexError \<longrightarrow>
               snd (snd outcome) = Inl (Unhandled IndexError))"
  proof
    assume a: "records \<noteq> [] \<and> \<not> list_all succeeds records"
    then have ne: "records \<noteq> []" and some: "\<not> list_all succeeds records" by simp_all
    define failure_of where "failure_of = (\<lambda>r.
      if fs (path r) = None
      then Inl (HTTPException 404 (''Image not found on disk: '' @ path r))
      else (case run r of
              Inl (ImageProcessingError message) \<Rightarrow> Inl (HTTPException 500 message)
            | Inl IndexError \<Rightarrow> Inl (Unhandled IndexError)
            | Inr metrics \<Rightarrow> (Inr [] :: failure + AnalysisImageResult list)))"
    have loop: "snd ?loop = failure_of first_failing"
      unfolding failure_of_def first_failing_def run_def path_def
      using analyze_images_failure [of fs base_dir lib config_data "zip [0..<length records] records" "[]" "[]"]
        some
      by (simp add: map_snd_enumerate succeeds_def run_def path_def)
    have ff: "\<not> succeeds first_failing"
      using some unfolding first_failing_def by (rule first_failing_fails)
    then have "isl (failure_of first_failing)"
      by (auto simp: failure_of_def succeeds_def split: sum.splits error.splits)
    then obtain f where ff_eq: "failure_of first_failing = Inl f"
      by (cases "failure_of first_failing") simp_all
    with loop have f: "snd ?loop = Inl f" by simp
    obtain attempted where "?loop = (attempted, Inl f)"
      using f by (cases ?loop) simp
    with ne have out: "outcome = (st, attempted, Inl f)"
      by (simp add: outcome_def analyze_def records_def [symmetric])
    have missing: "\<not> on_disk first_failing \<longrightarrow>
        f = HTTPException 404 (''Image not found on disk: '' @ path first_failing)"
      using ff_eq by (auto simp: failure_of_def on_disk_def split: if_splits)
    have processing: "\<forall>message. on_disk first_failing
          \<and> run first_failing = Inl (ImageProcessingError message) \<longrightarrow>
        f = HTTPException 500 message"
      using ff_eq by (auto simp: failure_of_def on_disk_def split: if_splits)
    have other: "on_disk first_failing \<and> run first_failing = Inl IndexError \<longrightarrow>
        f = Unhandled IndexError"
      using ff_eq by (auto simp: failure_of_def on_disk_def split: if_splits)
    show "fst outcome = st
          \<and> (\<not> on_disk first_failing \<longrightarrow>
               snd (snd outcome) =
                 Inl (HTTPException 404 (''Image not found on disk: '' @ path first_failing)))
          \<and> (\<forall>message. on_disk first_failing
                 \<and> run first_failing = Inl (ImageProcessingError message) \<longrightarrow>
               snd (snd outcome) = Inl (HTTPException 500 message))
          \<and> (on_disk first_failing \<and> run first_failing = Inl IndexError \<longrightarrow>
               snd (snd outcome) = Inl (Unhandled IndexError))"
      unfolding out using missing processing other by simp
  qed
  from attempted none good bad show ?thesis by blast
qed

theorem analyze_stops_at_first_failure_witness:
  "map image_id (get_images_for_animal toy_state ''m2'') = [''i3'', ''i4'', ''i5'']
   \<and> analyze toy_library toy_files ''/srv/backend'' ''2024-02-02T00:00:00''
         toy_state ''m2'' toy_config
       = (toy_state, [''i3''],
          Inl (HTTPException 404 ''Image not found on disk: /srv/backend/uploads/m2/gone.png''))
   \<and> fst (snd (analyze toy_library toy_files ''/srv/backend'' ''2024-02-02T00:00:00''
                  toy_state ''m3'' toy_config)) = [''i6'']
   \<and> state_results (fst (analyze toy_library toy_files ''/srv/backend'' ''2024-02-02T00:00:00''
                  toy_state ''m3'' toy_config)) ''m3''
       = Some \<lparr>result_animal_id = ''m3'', generated_at = ''2024-02-02T00:00:00Z'',
                images =
                  [\<lparr>result_image_id = ''i6'', image_number = 1, name = ''b.png'',
                    result_average_mli_um = Some (125 / 2),
                    result_processed_image_base64 = ''///AAA//////AAA//////AAA///'',
                    result_threshold_image_base64 = ''AAA///AAAAAA///AAAAAA///AAA'',
                    result_lines =
                      [\<lparr>line_number = 1, horizontal_intercepts = 2, vertical_intercepts = 0,
                         horizontal_length_um = 100, vertical_length_um = 50,
                         total_line_length_um = 150, mean_linear_intercept_um = Some 75\<rparr>,
                       \<lparr>line_number = 2, horizontal_intercepts = 2, vertical_intercepts = 0,
                         horizontal_length_um = 100, vertical_length_um = 0,
                         total_line_length_um = 100, mean_linear_intercept_um = Some 50\<rparr>]\<rparr>]\<rparr>"
proof -
  let ?r3 = "\<lparr>image_id = ''i3'', animal_id = ''m2'', original_filename = ''b.png'',
          stored_path = ''/data/b.png'', size = 3, uploaded_at = ''2024-01-02T09:00:00''\<rparr>"
  let ?r4 = "\<lparr>image_id = ''i4'', animal_id = ''m2'', original_filename = ''gone.png'',
          stored_path = ''uploads/m2/gone.png'', size = 7, uploaded_at = ''2024-01-02T09:00:01''\<rparr>"
  let ?r5 = "\<lparr>image_id = ''i5'', animal_id = ''m2'', original_filename = ''a.png'',
          stored_path = ''/data/a.png'', size = 5, uploaded_at = ''2024-01-02T09:00:02''\<rparr>"
  let ?r6 = "\<lparr>image_id = ''i6'', animal_id = ''m3'', original_filename = ''b.png'',
          stored_path = ''/data/b.png'', size = 3, uploaded_at = ''2024-01-03T08:00:00''\<rparr>"
  have recs2: "get_images_for_animal toy_state ''m2'' = [?r3, ?r4, ?r5]"
    by code_simp
  have recs3: "get_images_for_animal toy_state ''m3'' = [?r6]"
    by code_simp
  have p3: "resolve_path ''/srv/backend'' ''/data/b.png'' = ''/data/b.png''"
    by code_simp
  have p4: "resolve_path ''/srv/backend'' ''uploads/m2/gone.png'' = ''/srv/backend/uploads/m2/gone.png''"
    by code_simp
  have f3: "toy_files ''/data/b.png'' = Some [200, 0, 200]"
    by code_simp
  have f4: "toy_files ''/srv/backend/uploads/m2/gone.png'' = None"
    by code_simp
  note t2 = analyze_stops_at_first_failure [of toy_library toy_files "''/srv/backend''"
      "''2024-02-02T00:00:00''" toy_state "''m2''" toy_config]
  note t3 = analyze_stops_at_first_failure [of toy_library toy_files "''/srv/backend''"
      "''2024-02-02T00:00:00''" toy_state "''m3''" toy_config]
  have a: "analyze toy_library toy_files ''/srv/backend'' ''2024-02-02T00:00:00''
         toy_state ''m2'' toy_config
       = (toy_state, [''i3''],
          Inl (HTTPException 404 ''Image not found on disk: /srv/backend/uploads/m2/gone.png''))"
    using t2 unfolding recs2
    by (simp add: p3 p4 f3 f4 toy_run_b prod_eq_iff)
  have b: "analyze toy_library toy_files ''/srv/backend'' ''2024-02-02T00:00:00''
         toy_state ''m3'' toy_config
       = (toy_state\<lparr>state_results := (state_results toy_state)(''m3'' \<mapsto>
            \<lparr>result_animal_id = ''m3'', generated_at = ''2024-02-02T00:00:00Z'',
                images =
                  [\<lparr>result_image_id = ''i6'', image_number = 1, name = ''b.png'',
                    result_average_mli_um = Some (125 / 2),
                    result_processed_image_base64 = ''///AAA//////AAA//////AAA///'',
                    result_threshold_image_base64 = ''AAA///AAAAAA///AAAAAA///AAA'',
                    result_lines =
                      [\<lparr>line_number = 1, horizontal_intercepts = 2, vertical_intercepts = 0,
                         horizontal_length_um = 100, vertical_length_um = 50,
                         total_line_length_um = 150, mean_linear_intercept_um = Some 75\<rparr>,
                       \<lparr>line_number = 2, horizontal_intercepts = 2, vertical_intercepts = 0,
                         horizontal_length_um = 100, vertical_length_um = 0,
                         total_line_length_um = 100, mean_linear_intercept_um = Some 50\<rparr>]\<rparr>]\<rparr>)\<rparr>,
          [''i6''],
          Inr \<lparr>result_animal_id = ''m3'', generated_at = ''2024-02-02T00:00:00Z'',
                images =
                  [\<lparr>result_image_id = ''i6'', image_number = 1, name = ''b.png'',
                    result_average_mli_um = Some (125 / 2),
                    result_processed_image_base64 = ''///AAA//////AAA//////AAA///'',
                    result_threshold_image_base64 = ''AAA///AAAAAA///AAAAAA///AAA'',
                    result_lines =
                      [\<lparr>line_number = 1, horizontal_intercepts = 2, vertical_intercepts = 0,
                         horizontal_length_um = 100, vertical_length_um = 50,
                         total_line_length_um = 150, mean_linear_intercept_um = Some 75\<rparr>,
                       \<lparr>line_number = 2, horizontal_intercepts = 2, vertical_intercepts = 0,
                         horizontal_length_um = 100, vertical_length_um = 0,
                         total_line_length_um = 100, mean_linear_intercept_um = Some 50\<rparr>]\<rparr>]\<rparr>)"
    using t3 unfolding recs3
    by (simp add: p3 f3 toy_run_b)
  from recs2 a b show ?thesis by simp
qed

end
